theory Spec2Isabelle
  imports Main
begin

section \<open>Python values used by web.py\<close>

text \<open>
  A Python \<open>str\<close> is a sequence of Unicode code points: \<open>len\<close>, slicing, \<open>strip\<close>,
  \<open>split\<close> and \<open>startswith\<close> all count code points, and the section names tested by
  the source contain code points above 255. A string is therefore a list of code
  points; \<open>ustr\<close> embeds an ASCII literal.
\<close>

type_synonym ustring = "nat list"

type_synonym bytes = "nat list"

definition ustr :: "string \<Rightarrow> ustring" where
  "ustr s = map of_char s"

text \<open>
  The characters \<open>str.strip()\<close> removes: CPython's \<open>Py_UNICODE_ISSPACE\<close>, that is
  U+0009..U+000D, U+001C..U+001F, U+0020, U+0085, U+00A0, U+1680, U+2000..U+200A,
  U+2028, U+2029, U+202F, U+205F and U+3000.
\<close>

definition py_isspace :: "nat \<Rightarrow> bool" where
  "py_isspace c \<longleftrightarrow>
     (9 \<le> c \<and> c \<le> 13) \<or> (28 \<le> c \<and> c \<le> 32) \<or> c = 133 \<or> c = 160 \<or> c = 5760
     \<or> (8192 \<le> c \<and> c \<le> 8202) \<or> c = 8232 \<or> c = 8233 \<or> c = 8239 \<or> c = 8287
     \<or> c = 12288"

definition py_lstrip :: "ustring \<Rightarrow> ustring" where
  "py_lstrip s = dropWhile py_isspace s"

definition py_rstrip :: "ustring \<Rightarrow> ustring" where
  "py_rstrip s = rev (dropWhile py_isspace (rev s))"

definition py_strip :: "ustring \<Rightarrow> ustring" where
  "py_strip s = py_rstrip (py_lstrip s)"

text \<open>
  \<open>s.split(sep)\<close> for a separator of one character: every occurrence cuts, empty
  fields are kept, and the result always has at least one field.
\<close>

fun py_split :: "nat \<Rightarrow> ustring \<Rightarrow> ustring list" where
  "py_split sep [] = [[]]"
| "py_split sep (c # cs) =
     (if c = sep then [] # py_split sep cs
      else (case py_split sep cs of
              [] \<Rightarrow> [[c]]
            | p # ps \<Rightarrow> (c # p) # ps))"

definition py_startswith :: "ustring \<Rightarrow> ustring \<Rightarrow> bool" where
  "py_startswith s p \<longleftrightarrow> take (length p) s = p"

text \<open>Decimal digits of a natural number, \<open>str(n)\<close> and the format spec \<open>03\<close>.\<close>

fun py_digits :: "nat \<Rightarrow> ustring" where
  "py_digits n = (if n < 10 then [48 + n] else py_digits (n div 10) @ [48 + n mod 10])"

declare py_digits.simps [simp del]

definition py_str :: "int \<Rightarrow> ustring" where
  "py_str n = (if n < 0 then 45 # py_digits (nat (- n)) else py_digits (nat n))"

definition zero_fill :: "nat \<Rightarrow> ustring \<Rightarrow> ustring" where
  "zero_fill w ds = replicate (w - length ds) 48 @ ds"

text \<open>
  \<open>f"{n:03}"\<close>: minimum width 3, padded with zeros after the sign, so that the sign
  of a negative number counts towards the width (\<open>format(-5, '03') = '-05'\<close>).
\<close>

definition format_03 :: "int \<Rightarrow> ustring" where
  "format_03 n =
     (if n < 0 then 45 # zero_fill 2 (py_digits (nat (- n)))
      else zero_fill 3 (py_digits (nat n)))"

text \<open>\<open>os.path.join(a, b)\<close> of \<open>posixpath\<close>, for two components.\<close>

definition path_join :: "ustring \<Rightarrow> ustring \<Rightarrow> ustring" where
  "path_join a b =
     (if py_startswith b [47] then b
      else if a = [] \<or> last a = 47 then a @ b
      else a @ [47] @ b)"

text \<open>\<open>range(i, stop)\<close> with step 1, materialised by \<open>list(...)\<close>.\<close>

function py_range :: "int \<Rightarrow> int \<Rightarrow> int list" where
  "py_range i stop = (if i < stop then i # py_range (i + 1) stop else [])"
  by pat_completeness auto
termination
  by (relation "measure (\<lambda>(i, stop). nat (stop - i))") auto

declare py_range.simps [simp del]

text \<open>
  \<open>st.selectbox(label, options)\<close> returns the option the user picked, the first
  option when nothing valid is picked, and \<open>None\<close> when there are no options. The
  user's pick is an index.
\<close>

definition selectbox :: "'a list \<Rightarrow> nat \<Rightarrow> 'a option" where
  "selectbox opts i =
     (if opts = [] then None
      else if i < length opts then Some (opts ! i)
      else Some (opts ! 0))"

section \<open>Exceptions and the runtime\<close>

text \<open>
  Every exception the source can meet is a subclass of \<open>Exception\<close>;
  \<open>RuntimeError\<close> stands for any class the handlers do not tell apart.
  Exceptions outside \<open>Exception\<close> (\<open>KeyboardInterrupt\<close>, \<open>SystemExit\<close>) are not
  modelled. The calls of Streamlit that create no widget (\<open>st.error\<close>,
  \<open>st.warning\<close>, \<open>st.image\<close>, \<open>st.header\<close>) are taken to return normally. A widget
  created without a \<open>key\<close> is identified by its kind and its arguments, and
  Streamlit raises \<open>DuplicateWidgetID\<close> when one run creates the same widget twice:
  this is how \<open>st.text_area\<close> of line 207, whose label and height are fixed, raises
  for a page whose text equals the text of an earlier page.
\<close>

datatype exn =
    FileNotFoundError
  | ValueError
  | AttributeError
  | TypeError
  | UnboundLocalError
  | UnicodeError
  | DuplicateWidgetID
  | RuntimeError

text \<open>
  What the program asks of its environment. \<open>fitz\<close> (PyMuPDF), the file system and
  the interpreter's Unicode tables are not part of the repository, so they are
  parameters: every theorem below holds for every runtime. \<open>Inl\<close> is a raised
  exception.

  \<^item> A page gives its text and, for a zoom factor, its PNG rendering
    (\<open>fitz.Matrix\<close>, \<open>get_pixmap\<close> and \<open>tobytes("png")\<close> taken together).
  \<^item> A document has a page count and loads pages by index.
  \<^item> A text file opened for reading yields its lines in order; the iterator may
    raise after the last line it yields (a decoding error, for instance).
  \<^item> \<open>py_int\<close> is the builtin \<open>int\<close> on a \<open>str\<close>, whose digit table depends on the
    interpreter's Unicode version.
\<close>

record 'z page =
  get_text :: "exn + ustring"
  get_png :: "'z \<Rightarrow> exn + bytes"

record 'z document =
  page_count :: int
  load_page :: "int \<Rightarrow> exn + 'z page"

record text_file =
  tf_lines :: "ustring list"
  tf_failure :: "exn option"

record 'z runtime =
  py_int :: "ustring \<Rightarrow> exn + int"
  open_text :: "ustring \<Rightarrow> exn + text_file"
  fitz_open :: "ustring \<Rightarrow> exn + 'z document"
  isfile :: "ustring \<Rightarrow> bool"
  read_bytes :: "ustring \<Rightarrow> exn + bytes"
  encode_utf8 :: "ustring \<Rightarrow> exn + bytes"
  isalnum :: "nat \<Rightarrow> bool"

text \<open>
  The messages of \<open>st.error\<close> and \<open>st.warning\<close>, by the source line that builds
  them, with the values interpolated into the text.
\<close>

datatype message =
    Page_out_of_range int ustring
  | Pdf_open_error ustring exn
  | Pdf_render_error ustring exn
  | Invalid_line ustring
  | Manifest_not_found ustring
  | Manifest_read_error ustring exn
  | No_valid_sections
  | Section_not_found
  | Pdf_file_missing ustring ustring
  | Image_unavailable
  | Page_display_error exn
  | Pdf_download_error exn
  | Text_download_error exn

datatype notice = St_error message | St_warning message

section \<open>pymupdf_parse_page and pymupdf_render_page_as_image\<close>

text \<open>
  Both functions return their value together with the notices they show. The
  result is in \<open>exn + _\<close> so that an exception leaving the function would be a value
  \<open>Inl\<close>; the \<open>try\<close> block is the inner \<open>case\<close>, whose \<open>Inl\<close> goes to the handler.
  Inside the block, \<open>None\<close> is the early \<open>return\<close> for a page number out of range.
\<close>

definition pymupdf_parse_page ::
  "'z runtime \<Rightarrow> ustring \<Rightarrow> int \<Rightarrow> (exn + ustring) \<times> notice list" where
  "pymupdf_parse_page rt pdf_path page_number =
     (let text = [] in
      case (case fitz_open rt pdf_path of
              Inl e \<Rightarrow> Inl e
            | Inr file \<Rightarrow>
                if page_number < 0 \<or> page_number \<ge> page_count file then Inr None
                else (case load_page file page_number of
                        Inl e \<Rightarrow> Inl e
                      | Inr page \<Rightarrow>
                          (case get_text page of
                             Inl e \<Rightarrow> Inl e
                           | Inr t \<Rightarrow> Inr (Some (text @ t)))))
      of
        Inl e \<Rightarrow> (Inr [], [St_error (Pdf_open_error pdf_path e)])
      | Inr None \<Rightarrow> (Inr [], [St_error (Page_out_of_range (page_number + 1) pdf_path)])
      | Inr (Some text') \<Rightarrow> (Inr (take 230000 text'), []))"

definition pymupdf_render_page_as_image ::
  "'z runtime \<Rightarrow> ustring \<Rightarrow> int \<Rightarrow> 'z \<Rightarrow> (exn + bytes) \<times> notice list" where
  "pymupdf_render_page_as_image rt pdf_path page_number zoom =
     (case (case fitz_open rt pdf_path of
              Inl e \<Rightarrow> Inl e
            | Inr doc \<Rightarrow>
                if page_number < 0 \<or> page_number \<ge> page_count doc then Inr None
                else (case load_page doc page_number of
                        Inl e \<Rightarrow> Inl e
                      | Inr page \<Rightarrow>
                          (case get_png page zoom of
                             Inl e \<Rightarrow> Inl e
                           | Inr img_bytes \<Rightarrow> Inr (Some img_bytes))))
      of
        Inl e \<Rightarrow> (Inr [], [St_error (Pdf_render_error pdf_path e)])
      | Inr None \<Rightarrow> (Inr [], [St_error (Page_out_of_range (page_number + 1) pdf_path)])
      | Inr (Some img_bytes) \<Rightarrow> (Inr img_bytes, []))"

section \<open>parse_data_detail\<close>

text \<open>
  A section is the dict \<open>{'start': ..., 'end': ..., 'name': ...}\<close> that
  \<open>parse_data_detail\<close> builds. Python integers are unbounded.
\<close>

record sect =
  s_start :: int
  s_end :: int
  s_name :: ustring

text \<open>
  The body of the \<open>for\<close> loop (lines 71 to 85) on one line of the file: \<open>continue\<close>
  on a blank line, a warning and \<open>continue\<close> on fewer than three fields, an
  exception when \<open>int\<close> refuses the first or the second field, and otherwise one
  record to append.
\<close>

datatype line_result =
    Continue
  | Continue_warned ustring
  | Append sect
  | Raise exn

definition parse_line :: "'z runtime \<Rightarrow> ustring \<Rightarrow> line_result" where
  "parse_line rt raw =
     (let line = py_strip raw in
      if line = [] then Continue
      else
        let parts = py_split 35 line in
        if length parts < 3 then Continue_warned line
        else (case py_int rt (parts ! 0) of
                Inl e \<Rightarrow> Raise e
              | Inr start_page \<Rightarrow>
                  (case py_int rt (parts ! 1) of
                     Inl e \<Rightarrow> Raise e
                   | Inr end_page \<Rightarrow>
                       Append \<lparr>s_start = start_page, s_end = end_page,
                               s_name = py_strip (parts ! 2)\<rparr>)))"

text \<open>
  The loop over the lines, with the list \<open>sections\<close> and the notices shown so far.
  An exception stops the loop and keeps what was appended before it.
\<close>

fun parse_lines ::
  "'z runtime \<Rightarrow> ustring list \<Rightarrow> sect list \<Rightarrow> notice list
     \<Rightarrow> exn option \<times> sect list \<times> notice list" where
  "parse_lines rt [] sections shown = (None, sections, shown)"
| "parse_lines rt (raw # rest) sections shown =
     (case parse_line rt raw of
        Continue \<Rightarrow> parse_lines rt rest sections shown
      | Continue_warned line \<Rightarrow>
          parse_lines rt rest sections (shown @ [St_warning (Invalid_line line)])
      | Append entry \<Rightarrow> parse_lines rt rest (sections @ [entry]) shown
      | Raise e \<Rightarrow> (Some e, sections, shown))"

text \<open>The two \<open>except\<close> clauses, tried in the source's order.\<close>

definition manifest_handler :: "ustring \<Rightarrow> exn \<Rightarrow> notice" where
  "manifest_handler file_path e =
     (if e = FileNotFoundError then St_error (Manifest_not_found file_path)
      else St_error (Manifest_read_error file_path e))"

definition parse_data_detail :: "'z runtime \<Rightarrow> ustring \<Rightarrow> sect list \<times> notice list" where
  "parse_data_detail rt file_path =
     (case open_text rt file_path of
        Inl e \<Rightarrow> ([], [manifest_handler file_path e])
      | Inr f \<Rightarrow>
          (case parse_lines rt (tf_lines f) [] [] of
             (Some e, sections, shown) \<Rightarrow> (sections, shown @ [manifest_handler file_path e])
           | (None, sections, shown) \<Rightarrow>
               (case tf_failure f of
                  Some e \<Rightarrow> (sections, shown @ [manifest_handler file_path e])
                | None \<Rightarrow> (sections, shown))))"

section \<open>get_page_numbers and initialize_session_state\<close>

definition get_page_numbers :: "sect \<Rightarrow> int list" where
  "get_page_numbers section = py_range (s_start section) (s_end section + 1)"

text \<open>
  \<open>st.session_state\<close> is a dictionary from field names to values that outlives one
  run of the script.
\<close>

definition initialize_session_state :: "(ustring \<rightharpoonup> 'v) \<Rightarrow> 'v \<Rightarrow> (ustring \<rightharpoonup> 'v)" where
  "initialize_session_state session_state total_pages =
     (if session_state (ustr ''total_pages'') = None
      then session_state(ustr ''total_pages'' \<mapsto> total_pages)
      else session_state)"

section \<open>main\<close>

text \<open>
  One run of the script. The user's widget state is an input: the entries picked
  in the two select boxes, the check box and the zoom slider.
\<close>

record 'z user_input =
  pick_main :: nat
  pick_sub :: nat
  show_text :: bool
  zoom_factor :: 'z

text \<open>
  What a run does that a claim can observe, in order: notices, the options a select
  box offers, the heading, calls of \<open>os.path.isfile\<close>, of the page renderer and of the
  text extractor with their arguments, and the widgets of each page. Calls that
  only lay the page out (\<open>set_page_config\<close>, \<open>title\<close>, side bar headers,
  \<open>columns\<close>) leave no event.
\<close>

datatype 'z event =
    Notice notice
  | Selectbox_main "ustring list"
  | Selectbox_sub "ustring list"
  | Header ustring
  | Isfile ustring
  | Render ustring int 'z
  | Show_image bytes int
  | Divider
  | Expander int
  | Extract ustring int
  | Text_area ustring
  | Download_pdf bytes ustring
  | Download_text bytes ustring

definition data_dir :: ustring where
  "data_dir = ustr ''./data''"

definition data_detail_path :: ustring where
  "data_detail_path = ustr ''data_detail.txt''"

text \<open>The two name prefixes of line 131, as code points.\<close>

definition part_one_prefix :: ustring where
  "part_one_prefix = [78, 72, 7918, 78, 71, 32, 81, 85, 7888, 67, 32, 71, 73, 65]"

definition part_two_prefix :: ustring where
  "part_two_prefix = [88, 194, 89, 32, 68, 7920, 78, 71]"

definition is_main_section :: "sect \<Rightarrow> bool" where
  "is_main_section section \<longleftrightarrow>
     py_startswith (s_name section) part_one_prefix
     \<or> py_startswith (s_name section) part_two_prefix"

text \<open>The condition and the list comprehension of line 140.\<close>

definition is_sub_section :: "sect \<Rightarrow> sect \<Rightarrow> bool" where
  "is_sub_section selected_main_section_details section \<longleftrightarrow>
     s_start section \<ge> s_start selected_main_section_details
     \<and> s_start section \<le> s_end selected_main_section_details"

definition sub_sections_of :: "sect list \<Rightarrow> sect \<Rightarrow> sect list" where
  "sub_sections_of sections selected_main_section_details =
     filter (is_sub_section selected_main_section_details) sections"

text \<open>
  Lines 123 to 154 either leave \<open>main\<close> or fix the page numbers, the name of the
  chosen sub-section (unbound when the branch of line 138 is not taken) and the
  heading. A select box without options returns \<open>None\<close>: for the main section,
  \<open>None.startswith\<close> then raises; for the sub-section, \<open>next\<close> finds no section named
  \<open>None\<close>. Subscripting a main section that \<open>next\<close> did not find would raise too.
\<close>

datatype selection =
    Stop
  | Pages "int list" "ustring option" ustring

definition select_section ::
  "'z runtime \<Rightarrow> 'z user_input \<Rightarrow> (exn + selection) \<times> 'z event list" where
  "select_section rt ui =
     (case parse_data_detail rt data_detail_path of
        (sections, shown) \<Rightarrow>
          if sections = [] then (Inr Stop, map Notice shown @ [Notice (St_error No_valid_sections)])
          else
            let main_sections = filter is_main_section sections;
                main_options = map s_name main_sections;
                log1 = map Notice shown @ [Selectbox_main main_options]
            in (case selectbox main_options (pick_main ui) of
                  None \<Rightarrow> (Inl AttributeError, log1)
                | Some selected_main_section \<Rightarrow>
                    let selected_main_section_details =
                          find (\<lambda>s. s_name s = selected_main_section) sections
                    in if py_startswith selected_main_section part_two_prefix then
                         (case selected_main_section_details of
                            None \<Rightarrow> (Inl TypeError, log1)
                          | Some details \<Rightarrow>
                              let sub_sections = sub_sections_of sections details;
                                  sub_options = map s_name sub_sections;
                                  log2 = log1 @ [Selectbox_sub sub_options]
                              in (case selectbox sub_options (pick_sub ui) of
                                    None \<Rightarrow>
                                      (Inr Stop, log2 @ [Notice (St_error Section_not_found)])
                                  | Some selected_sub_section_name \<Rightarrow>
                                      (case find (\<lambda>s. s_name s = selected_sub_section_name)
                                              sections of
                                         None \<Rightarrow>
                                           (Inr Stop,
                                            log2 @ [Notice (St_error Section_not_found)])
                                       | Some selected_sub_section \<Rightarrow>
                                           (Inr (Pages (get_page_numbers selected_sub_section)
                                                   (Some selected_sub_section_name)
                                                   selected_sub_section_name),
                                            log2))))
                       else
                         (case selected_main_section_details of
                            None \<Rightarrow> (Inl TypeError, log1)
                          | Some details \<Rightarrow>
                              (Inr (Pages (get_page_numbers details) None selected_main_section),
                               log1))))"

definition page_filename :: "int \<Rightarrow> ustring" where
  "page_filename page_num = ustr ''page_'' @ format_03 page_num @ ustr ''.pdf''"

definition page_path :: "int \<Rightarrow> ustring" where
  "page_path page_num = path_join data_dir (page_filename page_num)"

text \<open>The body of the first loop (lines 170 to 188) for one page number.\<close>

definition show_page :: "'z runtime \<Rightarrow> 'z \<Rightarrow> int \<Rightarrow> 'z event list" where
  "show_page rt zoom page_num =
     (let pdf_filename = page_filename page_num;
          pdf_path = path_join data_dir pdf_filename
      in if \<not> isfile rt pdf_path
         then [Isfile pdf_path, Notice (St_error (Pdf_file_missing pdf_filename data_dir))]
         else (case pymupdf_render_page_as_image rt pdf_path 0 zoom of
                 (Inr img_bytes, shown) \<Rightarrow>
                   [Isfile pdf_path, Render pdf_path 0 zoom] @ map Notice shown
                   @ [if img_bytes \<noteq> [] then Show_image img_bytes page_num
                      else Notice (St_error Image_unavailable)]
                   @ [Divider]
               | (Inl e, shown) \<Rightarrow>
                   [Isfile pdf_path, Render pdf_path 0 zoom] @ map Notice shown
                   @ [Notice (St_error (Page_display_error e)), Divider]))"

fun show_pages :: "'z runtime \<Rightarrow> 'z \<Rightarrow> int list \<Rightarrow> 'z event list" where
  "show_pages rt zoom [] = []"
| "show_pages rt zoom (page_num # rest) = show_page rt zoom page_num @ show_pages rt zoom rest"

text \<open>Line 234: the characters kept in the name of the text download.\<close>

definition safe_name :: "'z runtime \<Rightarrow> ustring \<Rightarrow> ustring" where
  "safe_name rt nm = py_rstrip (filter (\<lambda>c. isalnum rt c \<or> c = 32 \<or> c = 95 \<or> c = 45) nm)"

text \<open>
  The body of the second loop (lines 194 to 243) for one page number, with the
  values of the text areas the run has created so far. The call of line 204 passes
  no page number, so the default \<open>0\<close> of \<open>pymupdf_parse_page\<close> is used; it stands
  outside every \<open>try\<close>, and so does \<open>st.text_area\<close> of line 207: an exception from
  either leaves \<open>main\<close>. The two download buttons stand inside \<open>try\<close> blocks.
\<close>

definition page_info ::
  "'z runtime \<Rightarrow> bool \<Rightarrow> ustring option \<Rightarrow> ustring list \<Rightarrow> int
     \<Rightarrow> exn option \<times> 'z event list \<times> ustring list" where
  "page_info rt shown_text sub_name areas page_num =
     (let pdf_filename = page_filename page_num;
          pdf_path = path_join data_dir pdf_filename
      in if \<not> isfile rt pdf_path
         then (None,
               [Expander page_num, Isfile pdf_path,
                Notice (St_error (Pdf_file_missing pdf_filename data_dir))],
               areas)
         else (case pymupdf_parse_page rt pdf_path 0 of
                 (Inl e, shown) \<Rightarrow>
                   (Some e,
                    [Expander page_num, Isfile pdf_path, Extract pdf_path 0] @ map Notice shown,
                    areas)
               | (Inr page_text, shown) \<Rightarrow>
                   if shown_text \<and> page_text \<in> set areas
                   then (Some DuplicateWidgetID,
                         [Expander page_num, Isfile pdf_path, Extract pdf_path 0]
                         @ map Notice shown,
                         areas)
                   else
                     (None,
                      [Expander page_num, Isfile pdf_path, Extract pdf_path 0] @ map Notice shown
                      @ (if shown_text then [Text_area page_text] else [])
                      @ [case read_bytes rt pdf_path of
                           Inr pdf_bytes \<Rightarrow> Download_pdf pdf_bytes pdf_filename
                         | Inl e \<Rightarrow> Notice (St_error (Pdf_download_error e))]
                      @ (if shown_text
                         then [case encode_utf8 rt page_text of
                                 Inl e \<Rightarrow> Notice (St_error (Text_download_error e))
                               | Inr encoded \<Rightarrow>
                                   (case sub_name of
                                      None \<Rightarrow>
                                        Notice (St_error (Text_download_error UnboundLocalError))
                                    | Some nm \<Rightarrow>
                                        Download_text encoded
                                          (safe_name rt nm @ ustr ''_Trang_'' @ py_str page_num
                                           @ ustr ''.txt''))]
                         else []),
                      if shown_text then areas @ [page_text] else areas)))"

text \<open>The second loop: an exception ends it and keeps the events before it.\<close>

fun pages_info ::
  "'z runtime \<Rightarrow> bool \<Rightarrow> ustring option \<Rightarrow> ustring list \<Rightarrow> int list
     \<Rightarrow> exn option \<times> 'z event list" where
  "pages_info rt shown_text sub_name areas [] = (None, [])"
| "pages_info rt shown_text sub_name areas (page_num # rest) =
     (case page_info rt shown_text sub_name areas page_num of
        (Some e, evs, areas') \<Rightarrow> (Some e, evs)
      | (None, evs, areas') \<Rightarrow>
          (case pages_info rt shown_text sub_name areas' rest of
             (r, evs') \<Rightarrow> (r, evs @ evs')))"

text \<open>
  \<open>main\<close>: the exception that leaves it, if any, the events of the run and the
  session state after it. No text area exists before the second loop.
\<close>

definition main ::
  "'z runtime \<Rightarrow> 'z user_input \<Rightarrow> (ustring \<rightharpoonup> int)
     \<Rightarrow> exn option \<times> 'z event list \<times> (ustring \<rightharpoonup> int)" where
  "main rt ui session_state =
     (case select_section rt ui of
        (Inl e, log) \<Rightarrow> (Some e, log, session_state)
      | (Inr Stop, log) \<Rightarrow> (None, log, session_state)
      | (Inr (Pages page_numbers sub_name heading), log) \<Rightarrow>
          let total_pages = int (length page_numbers);
              session_state' = initialize_session_state session_state total_pages;
              log1 = log @ [Header heading] @ show_pages rt (zoom_factor ui) page_numbers
          in (case pages_info rt (show_text ui) sub_name [] page_numbers of
                (r, evs) \<Rightarrow> (r, log1 @ evs, session_state')))"

section \<open>Observations on a run\<close>

text \<open>The options of the sub-section select box, when the run shows one.\<close>

fun sub_options_of :: "'z event list \<Rightarrow> ustring list option" where
  "sub_options_of [] = None"
| "sub_options_of (Selectbox_sub opts # evs) = Some opts"
| "sub_options_of (ev # evs) = sub_options_of evs"

text \<open>The paths tested with \<open>os.path.isfile\<close>, in order.\<close>

fun isfile_calls :: "'z event list \<Rightarrow> ustring list" where
  "isfile_calls [] = []"
| "isfile_calls (Isfile p # evs) = p # isfile_calls evs"
| "isfile_calls (ev # evs) = isfile_calls evs"

text \<open>The calls of the page renderer and of the text extractor, in order.\<close>

fun render_calls :: "'z event list \<Rightarrow> (ustring \<times> int \<times> 'z) list" where
  "render_calls [] = []"
| "render_calls (Render p i z # evs) = (p, i, z) # render_calls evs"
| "render_calls (ev # evs) = render_calls evs"

fun extract_calls :: "'z event list \<Rightarrow> (ustring \<times> int) list" where
  "extract_calls [] = []"
| "extract_calls (Extract p i # evs) = (p, i) # extract_calls evs"
| "extract_calls (ev # evs) = extract_calls evs"

text \<open>
  The text that the extractor returns for a page number, and the page numbers that
  the second loop reaches when it shows the text: all of them up to and including
  the first page whose file exists and whose text equals that of an earlier such
  page; every page number when the text is not shown.
\<close>

definition extracted :: "'z runtime \<Rightarrow> int \<Rightarrow> ustring" where
  "extracted rt n =
     (case fst (pymupdf_parse_page rt (page_path n) 0) of Inr t \<Rightarrow> t | Inl e \<Rightarrow> [])"

fun until_repeat :: "'z runtime \<Rightarrow> ustring list \<Rightarrow> int list \<Rightarrow> int list" where
  "until_repeat rt areas [] = []"
| "until_repeat rt areas (n # rest) =
     (if \<not> isfile rt (page_path n) then n # until_repeat rt areas rest
      else if extracted rt n \<in> set areas then [n]
      else n # until_repeat rt (areas @ [extracted rt n]) rest)"

definition second_loop_pages :: "'z runtime \<Rightarrow> bool \<Rightarrow> int list \<Rightarrow> int list" where
  "second_loop_pages rt shown_text pages =
     (if shown_text then until_repeat rt [] pages else pages)"

text \<open>The sections the loop of \<open>parse_data_detail\<close> builds from a list of lines.\<close>

definition manifest_sections :: "'z runtime \<Rightarrow> ustring list \<Rightarrow> sect list" where
  "manifest_sections rt ls = fst (snd (parse_lines rt ls [] []))"

text \<open>The fields of a line: split at \<open>#\<close> after stripping.\<close>

definition fields :: "ustring \<Rightarrow> ustring list" where
  "fields raw = py_split 35 (py_strip raw)"

text \<open>
  A line with at least three fields whose first or second field \<open>int\<close> refuses.
\<close>

definition refused :: "'z runtime \<Rightarrow> ustring \<Rightarrow> bool" where
  "refused rt raw \<longleftrightarrow>
     py_strip raw \<noteq> [] \<and> 3 \<le> length (fields raw)
     \<and> (isl (py_int rt (fields raw ! 0)) \<or> isl (py_int rt (fields raw ! 1)))"

section \<open>A concrete runtime\<close>

text \<open>
  \<open>int\<close> on a string, for the runtimes of the examples: surrounding white space, an
  optional sign, then digits, where single underscores may separate digits. \<open>int\<close>
  skips the white space of \<open>str.strip\<close> except U+001C..U+001F. Of the builtin it
  leaves out the decimal digits outside ASCII and the limit on the number of digits
  (4300 from Python 3.11), which no example uses.
\<close>

definition int_space :: "nat \<Rightarrow> bool" where
  "int_space c \<longleftrightarrow> py_isspace c \<and> \<not> (28 \<le> c \<and> c \<le> 31)"

definition ascii_digit :: "nat \<Rightarrow> bool" where
  "ascii_digit c \<longleftrightarrow> 48 \<le> c \<and> c \<le> 57"

fun int_digits :: "ustring \<Rightarrow> nat \<Rightarrow> nat option" where
  "int_digits [] acc = Some acc"
| "int_digits (c # cs) acc =
     (if ascii_digit c then int_digits cs (10 * acc + (c - 48))
      else if c = 95 then
        (case cs of
           [] \<Rightarrow> None
         | d # ds \<Rightarrow> if ascii_digit d then int_digits cs acc else None)
      else None)"

definition ascii_int :: "ustring \<Rightarrow> exn + int" where
  "ascii_int s =
     (let t = rev (dropWhile int_space (rev (dropWhile int_space s)));
          negative = (t \<noteq> [] \<and> hd t = 45);
          body = (if t \<noteq> [] \<and> (hd t = 45 \<or> hd t = 43) then tl t else t)
      in case body of
           [] \<Rightarrow> Inl ValueError
         | d # ds \<Rightarrow>
             if ascii_digit d then
               (case int_digits body 0 of
                  None \<Rightarrow> Inl ValueError
                | Some n \<Rightarrow> Inr (if negative then - int n else int n))
             else Inl ValueError)"

text \<open>
  A runtime whose manifest has the given lines, whose data directory holds the
  given page files, each a PDF of one page with the given text, and whose zoom
  factors are counted in tenths.
\<close>

definition one_page :: "ustring \<Rightarrow> nat document" where
  "one_page t =
     \<lparr>page_count = 1,
      load_page = (\<lambda>i. Inr \<lparr>get_text = Inr t, get_png = (\<lambda>z. Inr [137, 80, 78, 71])\<rparr>)\<rparr>"

definition example_runtime :: "ustring list \<Rightarrow> ustring list \<Rightarrow> ustring \<Rightarrow> nat runtime" where
  "example_runtime manifest present t =
     \<lparr>py_int = ascii_int,
      open_text = (\<lambda>p. if p = data_detail_path
                        then Inr \<lparr>tf_lines = manifest, tf_failure = None\<rparr>
                        else Inl FileNotFoundError),
      fitz_open = (\<lambda>p. if p \<in> set present then Inr (one_page t) else Inl FileNotFoundError),
      isfile = (\<lambda>p. p \<in> set present),
      read_bytes = (\<lambda>p. if p \<in> set present then Inr [37, 80, 68, 70] else Inl FileNotFoundError),
      encode_utf8 = Inr,
      isalnum = (\<lambda>c. ascii_digit c \<or> (65 \<le> c \<and> c \<le> 90) \<or> (97 \<le> c \<and> c \<le> 122))\<rparr>"

section \<open>Properties of get_page_numbers\<close>

lemma py_range_upto: "py_range i stop = [i..stop - 1]"
proof (induction i stop rule: py_range.induct)
  case (1 i stop)
  show ?case
  proof (cases "i < stop")
    case True
    then have "[i..stop - 1] = i # [i + 1..stop - 1]"
      by (simp add: upto_rec1)
    with True 1 show ?thesis
      by (simp add: py_range.simps [of i stop])
  next
    case False
    then show ?thesis
      by (simp add: py_range.simps [of i stop])
  qed
qed

lemma py_range_length: "length (py_range i stop) = nat (stop - i)"
  by (simp add: py_range_upto)

lemma py_range_nth: "k < nat (stop - i) \<Longrightarrow> py_range i stop ! k = i + int k"
  by (simp add: py_range_upto)

text \<open>
  C1. For a section with \<open>start \<le> end\<close>, \<open>get_page_numbers\<close> returns the consecutive
  integers from \<open>start\<close> to \<open>end\<close>, both endpoints included: the list has
  \<open>end - start + 1\<close> elements, its \<open>k\<close>-th element is \<open>start + k\<close>, it begins with
  \<open>start\<close> and finishes with \<open>end\<close>.
\<close>

theorem get_page_numbers_range:
  assumes "s_start section \<le> s_end section"
  shows "get_page_numbers section = [s_start section..s_end section]
    \<and> int (length (get_page_numbers section)) = s_end section - s_start section + 1
    \<and> (\<forall>k < length (get_page_numbers section).
           get_page_numbers section ! k = s_start section + int k)
    \<and> hd (get_page_numbers section) = s_start section
    \<and> last (get_page_numbers section) = s_end section"
proof -
  have eq: "get_page_numbers section = [s_start section..s_end section]"
    by (simp add: get_page_numbers_def py_range_upto)
  have len: "int (length (get_page_numbers section)) = s_end section - s_start section + 1"
    using assms by (simp add: get_page_numbers_def py_range_length)
  have nth: "\<forall>k < length (get_page_numbers section).
          get_page_numbers section ! k = s_start section + int k"
    by (simp add: get_page_numbers_def py_range_length py_range_nth)
  have first: "hd (get_page_numbers section) = s_start section"
    using assms by (simp add: eq upto_rec1)
  have final: "last (get_page_numbers section) = s_end section"
    using assms by (simp add: eq upto_rec2)
  from eq len nth first final show ?thesis
    by blast
qed

theorem get_page_numbers_range_witness:
  "s_start \<lparr>s_start = 3, s_end = 5, s_name = []\<rparr> \<le> s_end \<lparr>s_start = 3, s_end = 5, s_name = []\<rparr>
   \<and> get_page_numbers \<lparr>s_start = 3, s_end = 5, s_name = []\<rparr> = [3, 4, 5]
   \<and> length (get_page_numbers \<lparr>s_start = 3, s_end = 5, s_name = []\<rparr>) = 3"
  using get_page_numbers_range [of "\<lparr>s_start = 3, s_end = 5, s_name = []\<rparr>"]
  by (simp add: upto_rec1)

section \<open>Properties of parse_data_detail\<close>

lemma parse_lines_acc:
  "parse_lines rt ls secs shown =
     (case parse_lines rt ls [] [] of (r, s, n) \<Rightarrow> (r, secs @ s, shown @ n))"
proof (induction ls arbitrary: secs shown)
  case Nil
  show ?case by simp
next
  case (Cons raw rest)
  show ?case
  proof (cases "parse_line rt raw")
    case Continue
    then show ?thesis using Cons.IH [of secs shown] by simp
  next
    case (Continue_warned line)
    then show ?thesis
      using Cons.IH [of secs "shown @ [St_warning (Invalid_line line)]"]
        Cons.IH [of "[]" "[St_warning (Invalid_line line)]"]
      by (simp split: prod.splits)
  next
    case (Append entry)
    then show ?thesis
      using Cons.IH [of "secs @ [entry]" shown] Cons.IH [of "[entry]" "[]"]
      by (simp split: prod.splits)
  next
    case (Raise e)
    then show ?thesis by simp
  qed
qed

lemma parse_lines_runtime:
  "py_int rt = py_int rt' \<Longrightarrow> parse_lines rt ls secs shown = parse_lines rt' ls secs shown"
proof (induction ls arbitrary: secs shown)
  case Nil
  show ?case by simp
next
  case (Cons raw rest)
  have "parse_line rt raw = parse_line rt' raw"
    by (simp only: parse_line_def Cons.prems)
  with Cons show ?case
    by (cases "parse_line rt' raw") simp_all
qed

lemma manifest_sections_Nil: "manifest_sections rt [] = []"
  by (simp add: manifest_sections_def)

lemma manifest_sections_Cons:
  "manifest_sections rt (raw # rest) =
     (case parse_line rt raw of
        Continue \<Rightarrow> manifest_sections rt rest
      | Continue_warned line \<Rightarrow> manifest_sections rt rest
      | Append entry \<Rightarrow> entry # manifest_sections rt rest
      | Raise e \<Rightarrow> [])"
proof (cases "parse_line rt raw")
  case (Continue_warned line)
  then show ?thesis
    using parse_lines_acc [of rt rest "[]" "[St_warning (Invalid_line line)]"]
    by (simp add: manifest_sections_def split: prod.splits)
next
  case (Append entry)
  then show ?thesis
    using parse_lines_acc [of rt rest "[entry]" "[]"]
    by (simp add: manifest_sections_def split: prod.splits)
qed (simp_all add: manifest_sections_def)

lemma parse_line_Raise_iff: "(\<exists>e. parse_line rt raw = Raise e) \<longleftrightarrow> refused rt raw"
  by (auto simp: parse_line_def refused_def fields_def Let_def isl_def split: sum.splits)

lemma parse_line_Append_iff:
  "parse_line rt raw = Append entry \<longleftrightarrow>
     py_strip raw \<noteq> [] \<and> 3 \<le> length (fields raw)
     \<and> py_int rt (fields raw ! 0) = Inr (s_start entry)
     \<and> py_int rt (fields raw ! 1) = Inr (s_end entry)
     \<and> s_name entry = py_strip (fields raw ! 2)"
  by (cases entry) (auto simp: parse_line_def fields_def Let_def split: sum.splits)

lemma parse_line_skip_iff:
  "(parse_line rt raw = Continue \<or> (\<exists>line. parse_line rt raw = Continue_warned line)) \<longleftrightarrow>
     py_strip raw = [] \<or> length (fields raw) < 3"
  by (auto simp: parse_line_def fields_def Let_def split: sum.splits)

lemma manifest_sections_append:
  "\<forall>x\<in>set pre. \<not> refused rt x \<Longrightarrow>
     manifest_sections rt (pre @ post) = manifest_sections rt pre @ manifest_sections rt post"
proof (induction pre)
  case Nil
  show ?case by (simp add: manifest_sections_Nil)
next
  case (Cons raw pre)
  from Cons.prems have "\<not> refused rt raw" by simp
  then have "\<And>e. parse_line rt raw \<noteq> Raise e"
    using parse_line_Raise_iff [of rt raw] by blast
  with Cons show ?case
    by (cases "parse_line rt raw") (auto simp: manifest_sections_Cons)
qed

lemma manifest_sections_refused:
  "refused rt raw \<Longrightarrow> manifest_sections rt (pre @ raw # post) = manifest_sections rt pre"
proof (induction pre)
  case Nil
  then obtain e where "parse_line rt raw = Raise e"
    using parse_line_Raise_iff [of rt raw] by blast
  then show ?case by (simp add: manifest_sections_Cons manifest_sections_Nil)
next
  case (Cons x pre)
  then show ?case
    by (cases "parse_line rt x") (simp_all add: manifest_sections_Cons)
qed

lemma parse_lines_refused:
  "refused rt raw \<Longrightarrow> \<exists>e. fst (parse_lines rt (pre @ raw # post) secs shown) = Some e"
proof (induction pre arbitrary: secs shown)
  case Nil
  then obtain e where "parse_line rt raw = Raise e"
    using parse_line_Raise_iff [of rt raw] by blast
  then show ?case by simp
next
  case (Cons x pre)
  then show ?case
    by (cases "parse_line rt x") simp_all
qed

lemma parse_data_detail_sections:
  "open_text rt file_path = Inr f \<Longrightarrow>
     fst (parse_data_detail rt file_path) = manifest_sections rt (tf_lines f)"
  by (simp add: parse_data_detail_def manifest_sections_def split: prod.splits option.splits)

lemma parse_data_detail_unopened:
  "open_text rt file_path = Inl e \<Longrightarrow> fst (parse_data_detail rt file_path) = []"
  by (simp add: parse_data_detail_def)

lemma manifest_sections_origin:
  "entry \<in> set (manifest_sections rt ls) \<Longrightarrow> \<exists>raw\<in>set ls. parse_line rt raw = Append entry"
proof (induction ls)
  case Nil
  then show ?case by (simp add: manifest_sections_Nil)
next
  case (Cons x ls)
  then show ?case
    by (cases "parse_line rt x") (auto simp: manifest_sections_Cons)
qed

text \<open>The definitions that evaluate the parser on a concrete runtime.\<close>

lemmas manifest_eval =
  parse_data_detail_def example_runtime_def data_detail_path_def parse_line_def ustr_def
  py_strip_def py_lstrip_def py_rstrip_def py_isspace_def ascii_int_def ascii_digit_def
  fields_def refused_def manifest_sections_def int_space_def

text \<open>
  C8. When a line has at least three fields and \<open>int\<close> refuses its first or its
  second field, \<open>parse_data_detail\<close> stops at that line: it returns the records of
  the earlier lines only, which is what it returns for the file cut before that
  line, whatever the later lines are, and the last notice it shows is the error of
  its handler.
\<close>

theorem parse_data_detail_stops:
  assumes "open_text rt file_path = Inr f"
    and "tf_lines f = pre @ raw # post"
    and "py_strip raw \<noteq> []"
    and "3 \<le> length (fields raw)"
    and "isl (py_int rt (fields raw ! 0)) \<or> isl (py_int rt (fields raw ! 1))"
  shows "fst (parse_data_detail rt file_path) = manifest_sections rt pre
    \<and> fst (parse_data_detail rt file_path)
        = fst (parse_data_detail
                 (rt\<lparr>open_text := \<lambda>p. Inr \<lparr>tf_lines = pre, tf_failure = None\<rparr>\<rparr>) file_path)
    \<and> (\<exists>e. snd (parse_data_detail rt file_path) \<noteq> []
           \<and> last (snd (parse_data_detail rt file_path)) = manifest_handler file_path e)"
proof -
  from assms(3-5) have bad: "refused rt raw"
    by (simp add: refused_def)
  have one: "fst (parse_data_detail rt file_path) = manifest_sections rt pre"
    using assms(1,2) bad
    by (simp add: parse_data_detail_sections manifest_sections_refused)
  let ?rt = "rt\<lparr>open_text := \<lambda>p. Inr \<lparr>tf_lines = pre, tf_failure = None\<rparr>\<rparr>"
  have same: "manifest_sections ?rt pre = manifest_sections rt pre"
    unfolding manifest_sections_def using parse_lines_runtime [of ?rt rt pre] by simp
  have two: "fst (parse_data_detail ?rt file_path) = manifest_sections rt pre"
    using parse_data_detail_sections [of ?rt file_path "\<lparr>tf_lines = pre, tf_failure = None\<rparr>"] same
    by simp
  have three: "\<exists>e. snd (parse_data_detail rt file_path) \<noteq> []
           \<and> last (snd (parse_data_detail rt file_path)) = manifest_handler file_path e"
    using assms(1,2) parse_lines_refused [OF bad, of pre post "[]" "[]"]
    by (auto simp: parse_data_detail_def split: prod.splits option.splits)
  from one two three show ?thesis by simp
qed

theorem parse_data_detail_stops_witness:
  "py_strip (ustr ''x#2#b'') \<noteq> []
   \<and> 3 \<le> length (fields (ustr ''x#2#b''))
   \<and> isl (ascii_int (fields (ustr ''x#2#b'') ! 0))
   \<and> fst (parse_data_detail
            (example_runtime [ustr ''1#2#a'', ustr ''x#2#b'', ustr ''3#4#c''] [] [])
            data_detail_path)
       = [\<lparr>s_start = 1, s_end = 2, s_name = ustr ''a''\<rparr>]"
  using parse_data_detail_stops
    [of "example_runtime [ustr ''1#2#a'', ustr ''x#2#b'', ustr ''3#4#c''] [] []"
        data_detail_path
        "\<lparr>tf_lines = [ustr ''1#2#a'', ustr ''x#2#b'', ustr ''3#4#c''], tf_failure = None\<rparr>"
        "[ustr ''1#2#a'']" "ustr ''x#2#b''" "[ustr ''3#4#c'']"]
  by (simp add: manifest_eval)

text \<open>
  C2 (amended). Let a line of the manifest be reached by the loop, that is, let no
  earlier line have at least three fields with a first or second field that \<open>int\<close>
  refuses. If the line, stripped, is not empty and splits at \<open>#\<close> into at least three
  fields whose first two fields \<open>int\<close> accepts, \<open>parse_data_detail\<close> appends exactly
  one record for it, \<open>{'start': int(field0), 'end': int(field1), 'name': field2
  stripped}\<close>, between the records of the earlier and of the later lines. If the
  line is blank or has fewer than three fields, it adds no record.
\<close>

theorem parse_data_detail_line:
  assumes "open_text rt file_path = Inr f"
    and "tf_lines f = pre @ raw # post"
    and "\<forall>x\<in>set pre. \<not> refused rt x"
  shows "(py_strip raw \<noteq> [] \<and> 3 \<le> length (fields raw)
          \<and> py_int rt (fields raw ! 0) = Inr a \<and> py_int rt (fields raw ! 1) = Inr b
          \<longrightarrow> fst (parse_data_detail rt file_path)
               = manifest_sections rt pre
                 @ [\<lparr>s_start = a, s_end = b, s_name = py_strip (fields raw ! 2)\<rparr>]
                 @ manifest_sections rt post)
       \<and> (py_strip raw = [] \<or> length (fields raw) < 3
          \<longrightarrow> fst (parse_data_detail rt file_path)
               = manifest_sections rt pre @ manifest_sections rt post)"
proof -
  have split: "fst (parse_data_detail rt file_path)
      = manifest_sections rt pre @ manifest_sections rt (raw # post)"
    using assms by (simp add: parse_data_detail_sections manifest_sections_append)
  have good: "manifest_sections rt (raw # post)
      = \<lparr>s_start = a, s_end = b, s_name = py_strip (fields raw ! 2)\<rparr> # manifest_sections rt post"
    if "py_strip raw \<noteq> []" "3 \<le> length (fields raw)"
      "py_int rt (fields raw ! 0) = Inr a" "py_int rt (fields raw ! 1) = Inr b"
  proof -
    have "parse_line rt raw
        = Append \<lparr>s_start = a, s_end = b, s_name = py_strip (fields raw ! 2)\<rparr>"
      using that by (simp add: parse_line_Append_iff)
    then show ?thesis by (simp add: manifest_sections_Cons)
  qed
  have skip: "manifest_sections rt (raw # post) = manifest_sections rt post"
    if "py_strip raw = [] \<or> length (fields raw) < 3"
  proof -
    from that have "parse_line rt raw = Continue \<or> (\<exists>line. parse_line rt raw = Continue_warned line)"
      by (simp add: parse_line_skip_iff)
    then show ?thesis by (auto simp: manifest_sections_Cons)
  qed
  from split good skip show ?thesis by simp
qed

theorem parse_data_detail_line_witness:
  "\<not> refused (example_runtime [ustr ''ab#c'', ustr '' 5 # 3 #  x y '', ustr ''q#1#z''] [] [])
        (ustr ''ab#c'')
   \<and> py_strip (ustr '' 5 # 3 #  x y '') \<noteq> []
   \<and> 3 \<le> length (fields (ustr '' 5 # 3 #  x y ''))
   \<and> ascii_int (fields (ustr '' 5 # 3 #  x y '') ! 0) = Inr 5
   \<and> ascii_int (fields (ustr '' 5 # 3 #  x y '') ! 1) = Inr 3
   \<and> fst (parse_data_detail
            (example_runtime [ustr ''ab#c'', ustr '' 5 # 3 #  x y '', ustr ''q#1#z''] [] [])
            data_detail_path)
       = [\<lparr>s_start = 5, s_end = 3, s_name = ustr ''x y''\<rparr>]
   \<and> length (fields (ustr ''ab#c'')) < 3
   \<and> fst (parse_data_detail (example_runtime [ustr ''ab#c'', ustr ''7#8#n''] [] [])
            data_detail_path)
       = [\<lparr>s_start = 7, s_end = 8, s_name = ustr ''n''\<rparr>]"
  using parse_data_detail_line
    [of "example_runtime [ustr ''ab#c'', ustr '' 5 # 3 #  x y '', ustr ''q#1#z''] [] []"
        data_detail_path
        "\<lparr>tf_lines = [ustr ''ab#c'', ustr '' 5 # 3 #  x y '', ustr ''q#1#z''], tf_failure = None\<rparr>"
        "[ustr ''ab#c'']" "ustr '' 5 # 3 #  x y ''" "[ustr ''q#1#z'']" 5 3]
    parse_data_detail_line
    [of "example_runtime [ustr ''ab#c'', ustr ''7#8#n''] [] []"
        data_detail_path
        "\<lparr>tf_lines = [ustr ''ab#c'', ustr ''7#8#n''], tf_failure = None\<rparr>"
        "[]" "ustr ''ab#c''" "[ustr ''7#8#n'']" 0 0]
  by (simp add: manifest_eval)

text \<open>
  As stated, without the condition on the earlier lines, C2 fails: in the manifest
  \<open>x#y#z\<close>, \<open>1#2#a\<close> the second line has three fields and two integers, and no
  record is produced for it, because the first line ends the loop.
\<close>

theorem parse_data_detail_line_counterexample:
  "ustr ''1#2#a'' \<in> set [ustr ''x#y#z'', ustr ''1#2#a'']
   \<and> py_strip (ustr ''1#2#a'') \<noteq> []
   \<and> 3 \<le> length (fields (ustr ''1#2#a''))
   \<and> py_int (example_runtime [ustr ''x#y#z'', ustr ''1#2#a''] [] [])
        (fields (ustr ''1#2#a'') ! 0) = Inr 1
   \<and> py_int (example_runtime [ustr ''x#y#z'', ustr ''1#2#a''] [] [])
        (fields (ustr ''1#2#a'') ! 1) = Inr 2
   \<and> open_text (example_runtime [ustr ''x#y#z'', ustr ''1#2#a''] [] []) data_detail_path
       = Inr \<lparr>tf_lines = [ustr ''x#y#z'', ustr ''1#2#a''], tf_failure = None\<rparr>
   \<and> fst (parse_data_detail (example_runtime [ustr ''x#y#z'', ustr ''1#2#a''] [] [])
            data_detail_path) = []"
  by (simp add: manifest_eval)

text \<open>
  C3 (amended). Every record that \<open>parse_data_detail\<close> produces carries the two
  integers of one manifest line unchanged: \<open>start\<close> is \<open>int\<close> of the first field and
  \<open>end\<close> is \<open>int\<close> of the second, and the name is the stripped third field. The
  parser does not compare them, so \<open>start \<le> end\<close> holds for the record exactly when
  the line's first integer is at most its second.
\<close>

theorem parse_data_detail_bounds:
  assumes "section \<in> set (fst (parse_data_detail rt file_path))"
  shows "\<exists>f raw. open_text rt file_path = Inr f \<and> raw \<in> set (tf_lines f)
           \<and> py_strip raw \<noteq> [] \<and> 3 \<le> length (fields raw)
           \<and> py_int rt (fields raw ! 0) = Inr (s_start section)
           \<and> py_int rt (fields raw ! 1) = Inr (s_end section)
           \<and> s_name section = py_strip (fields raw ! 2)
           \<and> ((\<forall>a b. py_int rt (fields raw ! 0) = Inr a \<and> py_int rt (fields raw ! 1) = Inr b
                   \<longrightarrow> a \<le> b)
                \<longleftrightarrow> s_start section \<le> s_end section)"
proof (cases "open_text rt file_path")
  case (Inl e)
  with assms show ?thesis by (simp add: parse_data_detail_unopened)
next
  case (Inr f)
  with assms have "section \<in> set (manifest_sections rt (tf_lines f))"
    by (simp add: parse_data_detail_sections)
  then obtain raw where raw: "raw \<in> set (tf_lines f)" "parse_line rt raw = Append section"
    using manifest_sections_origin by blast
  from raw(2) have "py_strip raw \<noteq> [] \<and> 3 \<le> length (fields raw)
      \<and> py_int rt (fields raw ! 0) = Inr (s_start section)
      \<and> py_int rt (fields raw ! 1) = Inr (s_end section)
      \<and> s_name section = py_strip (fields raw ! 2)"
    by (simp add: parse_line_Append_iff)
  with Inr raw(1) show ?thesis by auto
qed

theorem parse_data_detail_bounds_witness:
  "\<lparr>s_start = 1, s_end = 2, s_name = ustr ''a''\<rparr>
     \<in> set (fst (parse_data_detail (example_runtime [ustr ''1#2#a''] [] []) data_detail_path))
   \<and> (\<exists>f raw. open_text (example_runtime [ustr ''1#2#a''] [] []) data_detail_path = Inr f
         \<and> raw \<in> set (tf_lines f)
         \<and> py_int (example_runtime [ustr ''1#2#a''] [] []) (fields raw ! 0) = Inr 1
         \<and> py_int (example_runtime [ustr ''1#2#a''] [] []) (fields raw ! 1) = Inr 2)"
proof -
  have member: "\<lparr>s_start = 1, s_end = 2, s_name = ustr ''a''\<rparr>
     \<in> set (fst (parse_data_detail (example_runtime [ustr ''1#2#a''] [] []) data_detail_path))"
    by (simp add: manifest_eval)
  from parse_data_detail_bounds [OF member] member show ?thesis
    by auto
qed

text \<open>
  As stated, C3 fails: the manifest line \<open>5#3#x\<close> yields a record with start 5 and
  end 3.
\<close>

theorem parse_data_detail_bounds_counterexample:
  "fst (parse_data_detail (example_runtime [ustr ''5#3#x''] [] []) data_detail_path)
     = [\<lparr>s_start = 5, s_end = 3, s_name = ustr ''x''\<rparr>]
   \<and> \<not> s_start \<lparr>s_start = 5, s_end = 3, s_name = ustr ''x''\<rparr>
        \<le> s_end \<lparr>s_start = 5, s_end = 3, s_name = ustr ''x''\<rparr>"
  by (simp add: manifest_eval)

section \<open>Properties of initialize_session_state\<close>

text \<open>
  C7. \<open>initialize_session_state\<close> writes the field \<open>total_pages\<close> and no other: every
  other field keeps its value; the field is written only when it is absent, and
  then receives the argument; when it is present the whole state is returned as it
  was. A second call, with any value, changes nothing: the stored \<open>total_pages\<close> and
  every other field stay as the first call left them.
\<close>

theorem initialize_session_state_frame:
  "(\<forall>k. k \<noteq> ustr ''total_pages'' \<longrightarrow>
         initialize_session_state session_state total_pages k = session_state k)
   \<and> (session_state (ustr ''total_pages'') = None \<longrightarrow>
         initialize_session_state session_state total_pages (ustr ''total_pages'')
           = Some total_pages)
   \<and> (session_state (ustr ''total_pages'') \<noteq> None \<longrightarrow>
         initialize_session_state session_state total_pages = session_state)
   \<and> initialize_session_state (initialize_session_state session_state total_pages) again
       = initialize_session_state session_state total_pages"
  by (simp add: initialize_session_state_def)

theorem initialize_session_state_frame_witness:
  "ustr ''zoom'' \<noteq> ustr ''total_pages''
   \<and> initialize_session_state [ustr ''zoom'' \<mapsto> 15] (3::int) (ustr ''zoom'') = Some 15
   \<and> [ustr ''zoom'' \<mapsto> (15::int)] (ustr ''total_pages'') = None
   \<and> initialize_session_state [ustr ''zoom'' \<mapsto> 15] (3::int) (ustr ''total_pages'') = Some 3
   \<and> [ustr ''total_pages'' \<mapsto> (3::int)] (ustr ''total_pages'') \<noteq> None
   \<and> initialize_session_state [ustr ''total_pages'' \<mapsto> 3] (8::int) = [ustr ''total_pages'' \<mapsto> 3]
   \<and> initialize_session_state (initialize_session_state [ustr ''zoom'' \<mapsto> 15] (3::int)) 8
       = initialize_session_state [ustr ''zoom'' \<mapsto> 15] 3"
  using initialize_session_state_frame [of "[ustr ''zoom'' \<mapsto> 15]" "3::int" 8]
    initialize_session_state_frame [of "[ustr ''total_pages'' \<mapsto> 3]" "8::int" 8]
  by (simp add: ustr_def)

section \<open>Properties of pymupdf_parse_page and pymupdf_render_page_as_image\<close>

lemma pymupdf_parse_page_returns:
  "\<exists>s. fst (pymupdf_parse_page rt pdf_path page_number) = Inr s \<and> length s \<le> 230000"
  by (simp add: pymupdf_parse_page_def split: sum.splits option.splits)

lemma pymupdf_render_page_as_image_returns:
  "\<exists>b. fst (pymupdf_render_page_as_image rt pdf_path page_number zoom) = Inr b"
  by (simp add: pymupdf_render_page_as_image_def split: sum.splits option.splits)

text \<open>
  C9. Whatever the path and the page number, \<open>pymupdf_parse_page\<close> returns a string
  of at most 230000 characters. When the page is loaded and its text extracted, the
  result is the first 230000 characters of that text and no notice is shown: longer
  text is cut silently, shorter text is returned whole.
\<close>

theorem pymupdf_parse_page_limit:
  "(\<exists>s. fst (pymupdf_parse_page rt pdf_path page_number) = Inr s \<and> length s \<le> 230000)
   \<and> (\<forall>file page t.
         fitz_open rt pdf_path = Inr file \<and> 0 \<le> page_number \<and> page_number < page_count file
         \<and> load_page file page_number = Inr page \<and> get_text page = Inr t
         \<longrightarrow> pymupdf_parse_page rt pdf_path page_number = (Inr (take 230000 t), []))"
  by (simp add: pymupdf_parse_page_def split: sum.splits option.splits)

theorem pymupdf_parse_page_limit_witness:
  "fitz_open (example_runtime [] [page_path 1] (replicate 230001 65)) (page_path 1)
     = Inr (one_page (replicate 230001 65))
   \<and> (0::int) < page_count (one_page (replicate 230001 65))
   \<and> length (replicate 230001 (65::nat)) = 230001
   \<and> pymupdf_parse_page (example_runtime [] [page_path 1] (replicate 230001 65)) (page_path 1) 0
       = (Inr (replicate 230000 65), [])"
  using pymupdf_parse_page_limit
    [of "example_runtime [] [page_path 1] (replicate 230001 65)" "page_path 1" 0]
  by (simp add: example_runtime_def one_page_def)

text \<open>
  C10. Neither function lets an exception reach its caller: each always returns a
  value. \<open>pymupdf_parse_page\<close> returns the empty string and
  \<open>pymupdf_render_page_as_image\<close> the empty byte string when opening the file
  fails, when the page number is negative or at least the document's page count,
  and when loading the page, extracting its text or converting it fails.
\<close>

theorem pymupdf_never_raise:
  "(\<exists>s. fst (pymupdf_parse_page rt pdf_path page_number) = Inr s)
   \<and> (\<exists>b. fst (pymupdf_render_page_as_image rt pdf_path page_number zoom) = Inr b)
   \<and> ((\<exists>e. fitz_open rt pdf_path = Inl e)
        \<or> (\<exists>file. fitz_open rt pdf_path = Inr file
              \<and> (page_number < 0 \<or> page_number \<ge> page_count file
                  \<or> (\<exists>e. load_page file page_number = Inl e)))
      \<longrightarrow> fst (pymupdf_parse_page rt pdf_path page_number) = Inr []
          \<and> fst (pymupdf_render_page_as_image rt pdf_path page_number zoom) = Inr [])
   \<and> (\<forall>file page e.
         fitz_open rt pdf_path = Inr file \<and> load_page file page_number = Inr page
         \<and> get_text page = Inl e
         \<longrightarrow> fst (pymupdf_parse_page rt pdf_path page_number) = Inr [])
   \<and> (\<forall>file page e.
         fitz_open rt pdf_path = Inr file \<and> load_page file page_number = Inr page
         \<and> get_png page zoom = Inl e
         \<longrightarrow> fst (pymupdf_render_page_as_image rt pdf_path page_number zoom) = Inr [])"
  by (auto simp: pymupdf_parse_page_def pymupdf_render_page_as_image_def
      split: sum.splits option.splits)

theorem pymupdf_never_raise_witness:
  "fitz_open (example_runtime [] [page_path 1] (ustr ''text'')) (page_path 1)
     = Inr (one_page (ustr ''text''))
   \<and> (5::int) \<ge> page_count (one_page (ustr ''text''))
   \<and> pymupdf_parse_page (example_runtime [] [page_path 1] (ustr ''text'')) (page_path 1) 5
       = (Inr [], [St_error (Page_out_of_range 6 (page_path 1))])
   \<and> pymupdf_render_page_as_image (example_runtime [] [page_path 1] (ustr ''text''))
        (page_path 1) 5 15
       = (Inr [], [St_error (Page_out_of_range 6 (page_path 1))])
   \<and> fitz_open (example_runtime [] [page_path 1] (ustr ''text'')) (page_path 2)
       = Inl FileNotFoundError
   \<and> pymupdf_parse_page (example_runtime [] [page_path 1] (ustr ''text'')) (page_path 2) 0
       = (Inr [], [St_error (Pdf_open_error (page_path 2) FileNotFoundError)])
   \<and> pymupdf_render_page_as_image (example_runtime [] [page_path 1] (ustr ''text''))
        (page_path 2) 0 15
       = (Inr [], [St_error (Pdf_render_error (page_path 2) FileNotFoundError)])
   \<and> fst (pymupdf_parse_page
        ((example_runtime [] [] [])
           \<lparr>fitz_open := \<lambda>p. Inr \<lparr>page_count = 1,
              load_page = \<lambda>i. Inr \<lparr>get_text = Inl RuntimeError,
                                     get_png = \<lambda>z. Inl RuntimeError\<rparr>\<rparr>\<rparr>)
        (page_path 1) 0) = Inr []
   \<and> fst (pymupdf_render_page_as_image
        ((example_runtime [] [] [])
           \<lparr>fitz_open := \<lambda>p. Inr \<lparr>page_count = 1,
              load_page = \<lambda>i. Inr \<lparr>get_text = Inl RuntimeError,
                                     get_png = \<lambda>z. Inl RuntimeError\<rparr>\<rparr>\<rparr>)
        (page_path 1) 0 15) = Inr []"
proof -
  let ?rt = "example_runtime [] [page_path 1] (ustr ''text'')"
  let ?broken = "(example_runtime [] [] [])
           \<lparr>fitz_open := \<lambda>p. Inr \<lparr>page_count = 1,
              load_page = \<lambda>i. Inr \<lparr>get_text = Inl RuntimeError,
                                     get_png = \<lambda>z. Inl RuntimeError\<rparr>\<rparr>\<rparr>"
  have "fst (pymupdf_parse_page ?broken (page_path 1) 0) = Inr []"
    "fst (pymupdf_render_page_as_image ?broken (page_path 1) 0 15) = Inr []"
    using pymupdf_never_raise [of ?broken "page_path 1" 0 15]
    by simp_all
  moreover have "fitz_open ?rt (page_path 1) = Inr (one_page (ustr ''text''))
   \<and> (5::int) \<ge> page_count (one_page (ustr ''text''))
   \<and> pymupdf_parse_page ?rt (page_path 1) 5
       = (Inr [], [St_error (Page_out_of_range 6 (page_path 1))])
   \<and> pymupdf_render_page_as_image ?rt (page_path 1) 5 15
       = (Inr [], [St_error (Page_out_of_range 6 (page_path 1))])
   \<and> fitz_open ?rt (page_path 2) = Inl FileNotFoundError
   \<and> pymupdf_parse_page ?rt (page_path 2) 0
       = (Inr [], [St_error (Pdf_open_error (page_path 2) FileNotFoundError)])
   \<and> pymupdf_render_page_as_image ?rt (page_path 2) 0 15
       = (Inr [], [St_error (Pdf_render_error (page_path 2) FileNotFoundError)])"
    using pymupdf_never_raise [of ?rt "page_path 1" 5 15]
      pymupdf_never_raise [of ?rt "page_path 2" 0 15]
    by (simp add: example_runtime_def one_page_def pymupdf_parse_page_def
      pymupdf_render_page_as_image_def page_path_def page_filename_def path_join_def
      data_dir_def py_startswith_def format_03_def zero_fill_def py_digits.simps ustr_def)
  ultimately show ?thesis by (intro conjI) simp_all
qed


section \<open>Properties of main\<close>

lemma isfile_calls_append: "isfile_calls (xs @ ys) = isfile_calls xs @ isfile_calls ys"
  by (induction xs rule: isfile_calls.induct) simp_all

lemma render_calls_append: "render_calls (xs @ ys) = render_calls xs @ render_calls ys"
  by (induction xs rule: render_calls.induct) simp_all

lemma extract_calls_append: "extract_calls (xs @ ys) = extract_calls xs @ extract_calls ys"
  by (induction xs rule: extract_calls.induct) simp_all

lemma sub_options_of_append:
  "sub_options_of (xs @ ys) =
     (case sub_options_of xs of None \<Rightarrow> sub_options_of ys | Some opts \<Rightarrow> Some opts)"
  by (induction xs rule: sub_options_of.induct) simp_all

lemma calls_of_notices:
  "isfile_calls (map Notice shown) = []"
  "render_calls (map Notice shown) = []"
  "extract_calls (map Notice shown) = []"
  "sub_options_of (map Notice shown) = None"
  by (induction shown) simp_all

lemma show_pages_concat: "show_pages rt zoom pages = concat (map (show_page rt zoom) pages)"
  by (induction pages) simp_all

lemma show_page_missing:
  "\<not> isfile rt (page_path n) \<Longrightarrow>
     show_page rt zoom n =
       [Isfile (page_path n), Notice (St_error (Pdf_file_missing (page_filename n) data_dir))]"
  by (simp add: show_page_def page_path_def Let_def)

lemma show_page_calls:
  "isfile_calls (show_page rt zoom n) = [page_path n]"
  "render_calls (show_page rt zoom n) =
     (if isfile rt (page_path n) then [(page_path n, 0, zoom)] else [])"
  "extract_calls (show_page rt zoom n) = []"
  "sub_options_of (show_page rt zoom n) = None"
  by (simp_all add: show_page_def page_path_def Let_def isfile_calls_append render_calls_append
      extract_calls_append sub_options_of_append calls_of_notices
      split: prod.splits sum.splits)

lemma show_pages_calls:
  "isfile_calls (show_pages rt zoom pages) = map page_path pages"
  "render_calls (show_pages rt zoom pages) =
     map (\<lambda>n. (page_path n, 0, zoom)) (filter (\<lambda>n. isfile rt (page_path n)) pages)"
  "extract_calls (show_pages rt zoom pages) = []"
  "sub_options_of (show_pages rt zoom pages) = None"
  by (induction pages)
    (simp_all add: isfile_calls_append render_calls_append extract_calls_append
      sub_options_of_append show_page_calls)

lemma page_info_missing:
  "\<not> isfile rt (page_path n) \<Longrightarrow>
     page_info rt shown_text sub_name areas n =
       (None,
        [Expander n, Isfile (page_path n),
         Notice (St_error (Pdf_file_missing (page_filename n) data_dir))],
        areas)"
  by (simp add: page_info_def page_path_def Let_def)

lemma extracted_eq:
  "pymupdf_parse_page rt (page_path n) 0 = (Inr t, shown) \<Longrightarrow> extracted rt n = t"
  by (simp add: extracted_def)

lemma page_info_present:
  assumes "isfile rt (page_path n)"
  shows "fst (page_info rt shown_text sub_name areas n) =
           (if shown_text \<and> extracted rt n \<in> set areas then Some DuplicateWidgetID else None)"
    and "snd (snd (page_info rt shown_text sub_name areas n)) =
           (if shown_text \<and> extracted rt n \<notin> set areas then areas @ [extracted rt n]
            else areas)"
proof -
  obtain s where "fst (pymupdf_parse_page rt (page_path n) 0) = Inr s"
    using pymupdf_parse_page_returns by blast
  then obtain shown where parsed: "pymupdf_parse_page rt (page_path n) 0 = (Inr s, shown)"
    by (cases "pymupdf_parse_page rt (page_path n) 0") simp
  then have same: "extracted rt n = s"
    by (rule extracted_eq)
  from assms parsed same
  show "fst (page_info rt shown_text sub_name areas n) =
           (if shown_text \<and> extracted rt n \<in> set areas then Some DuplicateWidgetID else None)"
    by (simp add: page_info_def Let_def page_path_def [symmetric])
  from assms parsed same
  show "snd (snd (page_info rt shown_text sub_name areas n)) =
           (if shown_text \<and> extracted rt n \<notin> set areas then areas @ [extracted rt n]
            else areas)"
    by (simp add: page_info_def Let_def page_path_def [symmetric])
qed

lemma page_info_calls:
  "isfile_calls (fst (snd (page_info rt shown_text sub_name areas n))) = [page_path n]"
  "render_calls (fst (snd (page_info rt shown_text sub_name areas n))) = []"
  "extract_calls (fst (snd (page_info rt shown_text sub_name areas n))) =
     (if isfile rt (page_path n) then [(page_path n, 0)] else [])"
  "sub_options_of (fst (snd (page_info rt shown_text sub_name areas n))) = None"
  by (simp_all add: page_info_def page_path_def Let_def isfile_calls_append render_calls_append
      extract_calls_append sub_options_of_append calls_of_notices
      split: prod.splits sum.splits option.splits)


lemma until_repeat_prefix: "\<exists>k\<le>length pages. until_repeat rt areas pages = take k pages"
proof (induction pages arbitrary: areas)
  case Nil
  show ?case by simp
next
  case (Cons n pages)
  show ?case
  proof (cases "isfile rt (page_path n) \<and> extracted rt n \<in> set areas")
    case True
    then have "until_repeat rt areas (n # pages) = take 1 (n # pages)"
      by simp
    then show ?thesis
      by (metis One_nat_def Suc_leI length_Cons zero_less_Suc)
  next
    case False
    then obtain areas' where step: "until_repeat rt areas (n # pages) = n # until_repeat rt areas' pages"
      by (cases "isfile rt (page_path n)") auto
    obtain k where "k \<le> length pages" "until_repeat rt areas' pages = take k pages"
      using Cons.IH by blast
    with step have "Suc k \<le> length (n # pages)"
      "until_repeat rt areas (n # pages) = take (Suc k) (n # pages)"
      by simp_all
    then show ?thesis by blast
  qed
qed

lemma until_repeat_all:
  assumes "distinct (map (extracted rt) (filter (\<lambda>n. isfile rt (page_path n)) pages))"
    and "set (map (extracted rt) (filter (\<lambda>n. isfile rt (page_path n)) pages)) \<inter> set areas = {}"
  shows "until_repeat rt areas pages = pages"
  using assms
proof (induction pages arbitrary: areas)
  case Nil
  show ?case by simp
next
  case (Cons n pages)
  show ?case
  proof (cases "isfile rt (page_path n)")
    case False
    with Cons show ?thesis by simp
  next
    case True
    with Cons.prems have fresh: "extracted rt n \<notin> set areas"
      and rest: "distinct (map (extracted rt) (filter (\<lambda>n. isfile rt (page_path n)) pages))"
      and apart: "set (map (extracted rt) (filter (\<lambda>n. isfile rt (page_path n)) pages))
          \<inter> set (areas @ [extracted rt n]) = {}"
      by auto
    from Cons.IH [OF rest apart] True fresh show ?thesis by simp
  qed
qed

lemma pages_info_Cons_missing:
  assumes "\<not> isfile rt (page_path n)"
  shows "pages_info rt shown_text sub_name areas (n # pages) =
     (fst (pages_info rt shown_text sub_name areas pages),
      [Expander n, Isfile (page_path n),
       Notice (St_error (Pdf_file_missing (page_filename n) data_dir))]
      @ snd (pages_info rt shown_text sub_name areas pages))"
  using assms by (simp add: page_info_missing split: prod.splits)

lemma pages_info_Cons_stop:
  assumes "isfile rt (page_path n)" and "shown_text" and "extracted rt n \<in> set areas"
  shows "pages_info rt shown_text sub_name areas (n # pages) =
     (Some DuplicateWidgetID, fst (snd (page_info rt shown_text sub_name areas n)))"
proof -
  obtain r evs areas' where step: "page_info rt shown_text sub_name areas n = (r, evs, areas')"
    by (cases "page_info rt shown_text sub_name areas n") auto
  with page_info_present(1) [OF assms(1), of shown_text sub_name areas] assms(2,3)
  have "r = Some DuplicateWidgetID" by simp
  with step show ?thesis by simp
qed

lemma pages_info_Cons_go:
  assumes "isfile rt (page_path n)" and "\<not> (shown_text \<and> extracted rt n \<in> set areas)"
  shows "pages_info rt shown_text sub_name areas (n # pages) =
     (fst (pages_info rt shown_text sub_name
             (if shown_text then areas @ [extracted rt n] else areas) pages),
      fst (snd (page_info rt shown_text sub_name areas n))
      @ snd (pages_info rt shown_text sub_name
               (if shown_text then areas @ [extracted rt n] else areas) pages))"
proof -
  obtain r evs areas' where step: "page_info rt shown_text sub_name areas n = (r, evs, areas')"
    by (cases "page_info rt shown_text sub_name areas n") auto
  with page_info_present [OF assms(1), of shown_text sub_name areas] assms(2)
  have "r = None" "areas' = (if shown_text then areas @ [extracted rt n] else areas)"
    by auto
  with step show ?thesis by (simp split: prod.splits)
qed

lemma pages_info_exn:
  "fst (pages_info rt shown_text sub_name areas pages) =
     (if shown_text
         \<and> \<not> (distinct (map (extracted rt) (filter (\<lambda>n. isfile rt (page_path n)) pages))
              \<and> set (map (extracted rt) (filter (\<lambda>n. isfile rt (page_path n)) pages))
                  \<inter> set areas = {})
      then Some DuplicateWidgetID else None)"
proof (induction pages arbitrary: areas)
  case Nil
  show ?case by simp
next
  case (Cons n pages)
  show ?case
  proof (cases "isfile rt (page_path n)")
    case False
    then show ?thesis
      by (simp add: pages_info_Cons_missing Cons.IH del: pages_info.simps)
  next
    case True
    show ?thesis
    proof (cases "shown_text \<and> extracted rt n \<in> set areas")
      case stop: True
      with True show ?thesis
        by (simp add: pages_info_Cons_stop del: pages_info.simps)
    next
      case False
      with True show ?thesis
        by (simp only: pages_info_Cons_go [OF True False] fst_conv Cons.IH) auto
    qed
  qed
qed

lemma pages_info_calls:
  "isfile_calls (snd (pages_info rt shown_text sub_name areas pages)) =
     map page_path (if shown_text then until_repeat rt areas pages else pages)
   \<and> extract_calls (snd (pages_info rt shown_text sub_name areas pages)) =
     map (\<lambda>n. (page_path n, 0))
       (filter (\<lambda>n. isfile rt (page_path n))
          (if shown_text then until_repeat rt areas pages else pages))
   \<and> render_calls (snd (pages_info rt shown_text sub_name areas pages)) = []
   \<and> sub_options_of (snd (pages_info rt shown_text sub_name areas pages)) = None"
proof (induction pages arbitrary: areas)
  case Nil
  show ?case by simp
next
  case (Cons n pages)
  show ?case
  proof (cases "isfile rt (page_path n)")
    case False
    then show ?thesis
      using Cons.IH [of areas]
      by (simp add: pages_info_Cons_missing isfile_calls_append extract_calls_append
          render_calls_append sub_options_of_append del: pages_info.simps)
  next
    case True
    show ?thesis
    proof (cases "shown_text \<and> extracted rt n \<in> set areas")
      case stop: True
      with True show ?thesis
        by (simp add: pages_info_Cons_stop page_info_calls del: pages_info.simps)
    next
      case False
      with True Cons.IH [of "if shown_text then areas @ [extracted rt n] else areas"]
      show ?thesis
        by (simp only: pages_info_Cons_go [OF True False] snd_conv)
          (auto simp: isfile_calls_append extract_calls_append render_calls_append
            sub_options_of_append page_info_calls)
    qed
  qed
qed


lemma main_of_pages:
  assumes "select_section rt ui = (Inr (Pages page_numbers sub_name heading), log)"
  shows "main rt ui session_state =
     (fst (pages_info rt (show_text ui) sub_name [] page_numbers),
      log @ [Header heading] @ show_pages rt (zoom_factor ui) page_numbers
        @ snd (pages_info rt (show_text ui) sub_name [] page_numbers),
      initialize_session_state session_state (int (length page_numbers)))"
  using assms by (simp add: main_def Let_def split: prod.splits)

lemma main_of_stop:
  assumes "select_section rt ui = (Inr Stop, log)"
  shows "main rt ui session_state = (None, log, session_state)"
  using assms by (simp add: main_def)

lemma main_of_raise:
  assumes "select_section rt ui = (Inl e, log)"
  shows "main rt ui session_state = (Some e, log, session_state)"
  using assms by (simp add: main_def)

lemma second_loop_pages_prefix:
  "\<exists>k\<le>length pages. second_loop_pages rt shown_text pages = take k pages"
proof (cases shown_text)
  case True
  then show ?thesis
    using until_repeat_prefix [of pages rt "[]"] by (simp add: second_loop_pages_def)
next
  case False
  then have "second_loop_pages rt shown_text pages = take (length pages) pages"
    by (simp add: second_loop_pages_def)
  then show ?thesis by blast
qed

lemma second_loop_pages_all:
  "\<not> shown_text \<or> distinct (map (extracted rt) (filter (\<lambda>n. isfile rt (page_path n)) pages))
     \<Longrightarrow> second_loop_pages rt shown_text pages = pages"
  by (auto simp: second_loop_pages_def until_repeat_all)

lemma find_name_in:
  "nm \<in> s_name ` set sections \<Longrightarrow> \<exists>d. find (\<lambda>s. s_name s = nm) sections = Some d"
  by (induction sections) auto

lemma selectbox_in: "selectbox opts i = Some x \<Longrightarrow> x \<in> set opts"
  by (auto simp: selectbox_def split: if_splits)

lemma find_in: "find P xs = Some x \<Longrightarrow> x \<in> set xs"
  by (induction xs) (auto split: if_splits)

lemma select_section_log_calls:
  "isfile_calls (snd (select_section rt ui)) = []"
  "render_calls (snd (select_section rt ui)) = []"
  "extract_calls (snd (select_section rt ui)) = []"
  by (simp_all add: select_section_def Let_def isfile_calls_append render_calls_append
      extract_calls_append calls_of_notices
      split: prod.splits option.splits)

lemma select_section_pages:
  assumes "select_section rt ui = (Inr (Pages page_numbers sub_name heading), log)"
  shows "\<exists>section\<in>set (fst (parse_data_detail rt data_detail_path)).
           page_numbers = get_page_numbers section"
  using assms
  by (auto simp: select_section_def Let_def dest: find_in
      split: prod.splits option.splits if_splits)


lemma page_path_eq: "page_path n = ustr ''./data/page_'' @ format_03 n @ ustr ''.pdf''"
  by (simp add: page_path_def page_filename_def path_join_def data_dir_def py_startswith_def
      ustr_def)

lemma py_digits_small: "m < 10 \<Longrightarrow> py_digits m = [48 + m]"
  by (simp add: py_digits.simps [of m])

lemma py_digits_step: "10 \<le> m \<Longrightarrow> py_digits m = py_digits (m div 10) @ [48 + m mod 10]"
  by (simp add: py_digits.simps [of m])

lemma py_digits_length: "0 < length (py_digits m)"
  by (cases "m < 10") (simp_all add: py_digits_small py_digits_step)

lemma format_03_three_digits:
  assumes "0 \<le> n" and "n < 1000"
  shows "format_03 n = [48 + nat n div 100, 48 + nat n div 10 mod 10, 48 + nat n mod 10]"
proof -
  define m where "m = nat n"
  from assms have m: "m < 1000" and fmt: "format_03 n = zero_fill 3 (py_digits m)"
    by (simp_all add: m_def format_03_def)
  consider "m < 10" | "10 \<le> m" "m < 100" | "100 \<le> m"
    by linarith
  then have "zero_fill 3 (py_digits m) = [48 + m div 100, 48 + m div 10 mod 10, 48 + m mod 10]"
  proof cases
    case 1
    then show ?thesis
      by (simp add: py_digits_small zero_fill_def numeral_3_eq_3)
  next
    case 2
    then have "py_digits m = [48 + m div 10, 48 + m mod 10]"
      by (simp add: py_digits_step py_digits_small)
    with 2 show ?thesis
      by (simp add: zero_fill_def)
  next
    case 3
    with m have "10 \<le> m div 10" "m div 10 < 100"
      by simp_all
    with 3 have "py_digits m = [48 + m div 10 div 10, 48 + m div 10 mod 10, 48 + m mod 10]"
      by (simp add: py_digits_step py_digits_small)
    then show ?thesis
      by (simp add: zero_fill_def div_mult2_eq [symmetric])
  qed
  with fmt show ?thesis by (simp add: m_def)
qed

lemma get_page_numbers_ascending:
  "sorted (get_page_numbers section) \<and> distinct (get_page_numbers section)"
  by (simp add: get_page_numbers_def py_range_upto)


lemma replicate_small:
  "replicate 1 x = [x]" "replicate 2 x = [x, x]" "replicate 3 x = [x, x, x]"
  by (simp_all add: numeral_2_eq_2 numeral_3_eq_3)

text \<open>The definitions that evaluate a run on a concrete runtime.\<close>

lemmas main_eval =
  select_section_def selectbox_def is_main_section_def py_startswith_def part_one_prefix_def
  part_two_prefix_def sub_sections_of_def is_sub_section_def get_page_numbers_def
  py_range.simps page_path_eq format_03_def zero_fill_def py_digits.simps replicate_small

lemma example_select:
  "select_section
     (example_runtime [ustr ''1#2#'' @ part_one_prefix] [page_path 2] (ustr ''hello''))
     \<lparr>pick_main = 0, pick_sub = 0, show_text = True, zoom_factor = 15\<rparr>
   = (Inr (Pages [1, 2] None part_one_prefix), [Selectbox_main [part_one_prefix]])"
  by (simp add: manifest_eval main_eval)



lemma main_calls_of_other:
  assumes "select_section rt ui = (r, log)" and "\<forall>p s h. r \<noteq> Inr (Pages p s h)"
  shows "fst (snd (main rt ui session_state)) = log"
proof (cases r)
  case (Inl e)
  with assms(1) show ?thesis by (simp add: main_of_raise)
next
  case (Inr sel)
  with assms(2) have "sel = Stop" by (cases sel) simp_all
  with Inr assms(1) show ?thesis by (simp add: main_of_stop)
qed

lemma main_pages_calls:
  assumes "select_section rt ui = (Inr (Pages page_numbers sub_name heading), log)"
  shows "render_calls (fst (snd (main rt ui session_state)))
           = map (\<lambda>n. (page_path n, 0, zoom_factor ui))
               (filter (\<lambda>n. isfile rt (page_path n)) page_numbers)"
    and "isfile_calls (fst (snd (main rt ui session_state)))
           = map page_path page_numbers
             @ map page_path (second_loop_pages rt (show_text ui) page_numbers)"
    and "extract_calls (fst (snd (main rt ui session_state)))
           = map (\<lambda>n. (page_path n, 0))
               (filter (\<lambda>n. isfile rt (page_path n))
                  (second_loop_pages rt (show_text ui) page_numbers))"
    and "fst (main rt ui session_state) = None \<longleftrightarrow>
           \<not> show_text ui
           \<or> distinct (map (extracted rt) (filter (\<lambda>n. isfile rt (page_path n)) page_numbers))"
    and "fst (main rt ui session_state) = None
           \<or> fst (main rt ui session_state) = Some DuplicateWidgetID"
proof -
  note run = main_of_pages [OF assms, of session_state]
  note second = pages_info_calls [of rt "show_text ui" sub_name "[]" page_numbers]
  have quiet: "isfile_calls log = []" "render_calls log = []" "extract_calls log = []"
    using select_section_log_calls [of rt ui] assms by simp_all
  show "render_calls (fst (snd (main rt ui session_state)))
           = map (\<lambda>n. (page_path n, 0, zoom_factor ui))
               (filter (\<lambda>n. isfile rt (page_path n)) page_numbers)"
    using second quiet by (simp add: run render_calls_append show_pages_calls)
  show "isfile_calls (fst (snd (main rt ui session_state)))
           = map page_path page_numbers
             @ map page_path (second_loop_pages rt (show_text ui) page_numbers)"
    using second quiet
    by (simp add: run isfile_calls_append show_pages_calls second_loop_pages_def)
  show "extract_calls (fst (snd (main rt ui session_state)))
           = map (\<lambda>n. (page_path n, 0))
               (filter (\<lambda>n. isfile rt (page_path n))
                  (second_loop_pages rt (show_text ui) page_numbers))"
    using second quiet
    by (simp add: run extract_calls_append show_pages_calls second_loop_pages_def)
  show "fst (main rt ui session_state) = None \<longleftrightarrow>
           \<not> show_text ui
           \<or> distinct (map (extracted rt) (filter (\<lambda>n. isfile rt (page_path n)) page_numbers))"
    by (simp add: run pages_info_exn)
  show "fst (main rt ui session_state) = None
           \<or> fst (main rt ui session_state) = Some DuplicateWidgetID"
    by (simp add: run pages_info_exn)
qed

lemma example_paths:
  "page_path 1 = ustr ''./data/page_001.pdf''"
  "page_path 2 = ustr ''./data/page_002.pdf''"
  "page_path 3 = ustr ''./data/page_003.pdf''"
  by (simp_all add: page_path_eq format_03_def zero_fill_def py_digits.simps ustr_def
      replicate_small)

lemma example_trace:
  "main (example_runtime [ustr ''1#2#'' @ part_one_prefix] [page_path 2] (ustr ''hello''))
     \<lparr>pick_main = 0, pick_sub = 0, show_text = True, zoom_factor = 15\<rparr> Map.empty
   = (None,
      [Selectbox_main [part_one_prefix], Header part_one_prefix,
       Isfile (page_path 1),
       Notice (St_error (Pdf_file_missing (page_filename 1) data_dir)),
       Isfile (page_path 2), Render (page_path 2) 0 15, Show_image [137, 80, 78, 71] 2, Divider,
       Expander 1, Isfile (page_path 1),
       Notice (St_error (Pdf_file_missing (page_filename 1) data_dir)),
       Expander 2, Isfile (page_path 2), Extract (page_path 2) 0, Text_area (ustr ''hello''),
       Download_pdf [37, 80, 68, 70] (page_filename 2),
       Notice (St_error (Text_download_error UnboundLocalError))],
      [ustr ''total_pages'' \<mapsto> 2])"
proof -
  let ?rt = "example_runtime [ustr ''1#2#'' @ part_one_prefix] [page_path 2] (ustr ''hello'')"
  have missing: "\<not> isfile ?rt (page_path 1)" and present: "isfile ?rt (page_path 2)"
    by (simp_all add: example_runtime_def example_paths ustr_def)
  have first: "show_page ?rt 15 2
      = [Isfile (page_path 2), Render (page_path 2) 0 15, Show_image [137, 80, 78, 71] 2, Divider]"
    using present
    by (simp add: show_page_def page_path_def [symmetric] Let_def
        pymupdf_render_page_as_image_def)
      (simp add: example_runtime_def one_page_def page_path_def)
  have second: "page_info ?rt True None [] 2
      = (None,
         [Expander 2, Isfile (page_path 2), Extract (page_path 2) 0, Text_area (ustr ''hello''),
          Download_pdf [37, 80, 68, 70] (page_filename 2),
          Notice (St_error (Text_download_error UnboundLocalError))],
         [ustr ''hello''])"
    using present
    by (simp add: page_info_def page_path_def [symmetric] Let_def pymupdf_parse_page_def)
      (simp add: example_runtime_def one_page_def ustr_def page_path_def)
  show ?thesis
    using missing first second
    by (simp add: main_of_pages [OF example_select] show_page_missing page_info_missing
        initialize_session_state_def)
qed


text \<open>
  C5. Once a section is selected, the first loop of \<open>main\<close> (lines 169 to 188) goes
  through all its page numbers in ascending order: it calls \<open>os.path.isfile\<close> for
  every page number, in order, on \<open>./data/page_NNN.pdf\<close>, where \<open>NNN\<close> is the page
  number formatted with \<open>03\<close> (padded with zeros to at least three characters, hence
  exactly its three decimal digits for a page number from 0 to 999; for a negative
  page number the minus sign counts towards the width), and it renders every page
  whose file exists, whatever files are missing before it. A page whose file is
  missing yields only the error notice, in either loop, and raises nothing. The
  second loop (lines 193 to 243) does the same in the same order and extracts the
  text of every page whose file exists, as far as it gets: \<open>st.text_area\<close> ends it,
  with an exception that leaves \<open>main\<close>, at the first page whose text equals the
  text of an earlier page, and only when the text is shown; otherwise it reaches
  every page and no exception leaves \<open>main\<close>.
\<close>

theorem main_visits_pages:
  assumes "select_section rt ui = (Inr (Pages page_numbers sub_name heading), log)"
  shows "fst (snd (main rt ui session_state))
        = log @ [Header heading]
          @ concat (map (show_page rt (zoom_factor ui)) page_numbers)
          @ snd (pages_info rt (show_text ui) sub_name [] page_numbers)
    \<and> isfile_calls (concat (map (show_page rt (zoom_factor ui)) page_numbers))
        = map page_path page_numbers
    \<and> render_calls (fst (snd (main rt ui session_state)))
        = map (\<lambda>n. (page_path n, 0, zoom_factor ui))
            (filter (\<lambda>n. isfile rt (page_path n)) page_numbers)
    \<and> isfile_calls (fst (snd (main rt ui session_state)))
        = map page_path page_numbers
          @ map page_path (second_loop_pages rt (show_text ui) page_numbers)
    \<and> extract_calls (fst (snd (main rt ui session_state)))
        = map (\<lambda>n. (page_path n, 0))
            (filter (\<lambda>n. isfile rt (page_path n))
               (second_loop_pages rt (show_text ui) page_numbers))
    \<and> (fst (main rt ui session_state) = None \<longleftrightarrow>
          \<not> show_text ui
          \<or> distinct (map (extracted rt)
                (filter (\<lambda>n. isfile rt (page_path n)) page_numbers)))
    \<and> (fst (main rt ui session_state) = None
          \<longrightarrow> second_loop_pages rt (show_text ui) page_numbers = page_numbers)
    \<and> (\<exists>k\<le>length page_numbers.
          second_loop_pages rt (show_text ui) page_numbers = take k page_numbers)
    \<and> sorted page_numbers \<and> distinct page_numbers
    \<and> (\<forall>n. page_path n = ustr ''./data/page_'' @ format_03 n @ ustr ''.pdf'')
    \<and> (\<forall>n. 0 \<le> n \<longrightarrow>
           format_03 n = replicate (3 - length (py_str n)) 48 @ py_str n)
    \<and> (\<forall>n. 0 \<le> n \<and> n < 1000 \<longrightarrow>
           format_03 n = [48 + nat n div 100, 48 + nat n div 10 mod 10, 48 + nat n mod 10])
    \<and> (\<forall>n. n < 0 \<longrightarrow>
           format_03 n = 45 # replicate (3 - length (py_str n)) 48 @ tl (py_str n))
    \<and> (\<forall>n areas. \<not> isfile rt (page_path n) \<longrightarrow>
           show_page rt (zoom_factor ui) n
             = [Isfile (page_path n),
                Notice (St_error (Pdf_file_missing (page_filename n) data_dir))]
           \<and> page_info rt (show_text ui) sub_name areas n
             = (None,
                [Expander n, Isfile (page_path n),
                 Notice (St_error (Pdf_file_missing (page_filename n) data_dir))],
                areas))"
proof -
  note run = main_of_pages [OF assms, of session_state]
  note calls = main_pages_calls [OF assms, of session_state]
  have a: "fst (snd (main rt ui session_state))
        = log @ [Header heading]
          @ concat (map (show_page rt (zoom_factor ui)) page_numbers)
          @ snd (pages_info rt (show_text ui) sub_name [] page_numbers)"
    by (simp add: run show_pages_concat)
  have b: "isfile_calls (concat (map (show_page rt (zoom_factor ui)) page_numbers))
        = map page_path page_numbers"
    using show_pages_calls(1) [of rt "zoom_factor ui" page_numbers]
    by (simp add: show_pages_concat)
  have all: "fst (main rt ui session_state) = None
          \<longrightarrow> second_loop_pages rt (show_text ui) page_numbers = page_numbers"
    using calls(4) second_loop_pages_all [of "show_text ui" rt page_numbers] by blast
  note prefix = second_loop_pages_prefix [of page_numbers rt "show_text ui"]
  obtain sec where "page_numbers = get_page_numbers sec"
    using select_section_pages [OF assms] by blast
  then have c: "sorted page_numbers" "distinct page_numbers"
    by (simp_all add: get_page_numbers_ascending)
  have e: "\<forall>n. page_path n = ustr ''./data/page_'' @ format_03 n @ ustr ''.pdf''"
    by (simp add: page_path_eq)
  have f: "\<forall>n. 0 \<le> n \<longrightarrow> format_03 n = replicate (3 - length (py_str n)) 48 @ py_str n"
    by (simp add: format_03_def py_str_def zero_fill_def)
  have g: "\<forall>n. 0 \<le> n \<and> n < 1000 \<longrightarrow>
           format_03 n = [48 + nat n div 100, 48 + nat n div 10 mod 10, 48 + nat n mod 10]"
    by (simp add: format_03_three_digits)
  have g': "\<forall>n. n < 0 \<longrightarrow>
           format_03 n = 45 # replicate (3 - length (py_str n)) 48 @ tl (py_str n)"
    by (simp add: format_03_def py_str_def zero_fill_def numeral_3_eq_3 numeral_2_eq_2)
  have h: "\<forall>n areas. \<not> isfile rt (page_path n) \<longrightarrow>
           show_page rt (zoom_factor ui) n
             = [Isfile (page_path n),
                Notice (St_error (Pdf_file_missing (page_filename n) data_dir))]
           \<and> page_info rt (show_text ui) sub_name areas n
             = (None,
                [Expander n, Isfile (page_path n),
                 Notice (St_error (Pdf_file_missing (page_filename n) data_dir))],
                areas)"
    by (simp add: show_page_missing page_info_missing)
  from a b calls(1) calls(2) calls(3) calls(4) all prefix c e f g g' h show ?thesis
    by (intro conjI)
qed

theorem main_visits_pages_witness:
  "select_section
     (example_runtime [ustr ''1#2#'' @ part_one_prefix] [page_path 2] (ustr ''hello''))
     \<lparr>pick_main = 0, pick_sub = 0, show_text = True, zoom_factor = 15\<rparr>
   = (Inr (Pages [1, 2] None part_one_prefix), [Selectbox_main [part_one_prefix]])
   \<and> page_path 1 = ustr ''./data/page_001.pdf''
   \<and> \<not> isfile (example_runtime [ustr ''1#2#'' @ part_one_prefix] [page_path 2] (ustr ''hello''))
          (page_path 1)
   \<and> isfile (example_runtime [ustr ''1#2#'' @ part_one_prefix] [page_path 2] (ustr ''hello''))
          (page_path 2)
   \<and> render_calls (fst (snd (main
        (example_runtime [ustr ''1#2#'' @ part_one_prefix] [page_path 2] (ustr ''hello''))
        \<lparr>pick_main = 0, pick_sub = 0, show_text = True, zoom_factor = 15\<rparr> Map.empty)))
       = [(page_path 2, 0, 15)]
   \<and> isfile_calls (fst (snd (main
        (example_runtime [ustr ''1#2#'' @ part_one_prefix] [page_path 2] (ustr ''hello''))
        \<lparr>pick_main = 0, pick_sub = 0, show_text = True, zoom_factor = 15\<rparr> Map.empty)))
       = [page_path 1, page_path 2, page_path 1, page_path 2]
   \<and> extract_calls (fst (snd (main
        (example_runtime [ustr ''1#2#'' @ part_one_prefix] [page_path 2] (ustr ''hello''))
        \<lparr>pick_main = 0, pick_sub = 0, show_text = True, zoom_factor = 15\<rparr> Map.empty)))
       = [(page_path 2, 0)]
   \<and> fst (main
        (example_runtime [ustr ''1#2#'' @ part_one_prefix] [page_path 2] (ustr ''hello''))
        \<lparr>pick_main = 0, pick_sub = 0, show_text = True, zoom_factor = 15\<rparr> Map.empty)
       = None
   \<and> show_page (example_runtime [ustr ''1#2#'' @ part_one_prefix] [page_path 2] (ustr ''hello''))
        15 1
       = [Isfile (page_path 1), Notice (St_error (Pdf_file_missing (page_filename 1) data_dir))]
   \<and> fst (snd (main
        (example_runtime [ustr ''1#2#'' @ part_one_prefix] [page_path 2] (ustr ''hello''))
        \<lparr>pick_main = 0, pick_sub = 0, show_text = True, zoom_factor = 15\<rparr> Map.empty))
       = [Selectbox_main [part_one_prefix], Header part_one_prefix,
          Isfile (page_path 1),
          Notice (St_error (Pdf_file_missing (page_filename 1) data_dir)),
          Isfile (page_path 2), Render (page_path 2) 0 15, Show_image [137, 80, 78, 71] 2,
          Divider,
          Expander 1, Isfile (page_path 1),
          Notice (St_error (Pdf_file_missing (page_filename 1) data_dir)),
          Expander 2, Isfile (page_path 2), Extract (page_path 2) 0,
          Text_area (ustr ''hello''),
          Download_pdf [37, 80, 68, 70] (page_filename 2),
          Notice (St_error (Text_download_error UnboundLocalError))]"
proof -
  let ?rt = "example_runtime [ustr ''1#2#'' @ part_one_prefix] [page_path 2] (ustr ''hello'')"
  let ?ui = "\<lparr>pick_main = 0, pick_sub = 0, show_text = True, zoom_factor = 15::nat\<rparr>"
  note visits = main_visits_pages [OF example_select, of Map.empty]
  have missing: "\<not> isfile ?rt (page_path 1)" and present: "isfile ?rt (page_path 2)"
    by (simp_all add: example_runtime_def example_paths ustr_def)
  then have files: "filter (\<lambda>n. isfile ?rt (page_path n)) [1, 2] = [2]"
    by simp
  from missing present have reach: "second_loop_pages ?rt (show_text ?ui) [1, 2] = [1, 2]"
    by (simp add: second_loop_pages_def)
  note rendered = visits [THEN conjunct2, THEN conjunct2, THEN conjunct1]
  note tested = visits [THEN conjunct2, THEN conjunct2, THEN conjunct2, THEN conjunct1]
  note read = visits [THEN conjunct2, THEN conjunct2, THEN conjunct2, THEN conjunct2,
      THEN conjunct1]
  note ends = visits [THEN conjunct2, THEN conjunct2, THEN conjunct2, THEN conjunct2,
      THEN conjunct2, THEN conjunct1]
  note absent = visits [THEN conjunct2, THEN conjunct2, THEN conjunct2, THEN conjunct2,
      THEN conjunct2, THEN conjunct2, THEN conjunct2, THEN conjunct2, THEN conjunct2,
      THEN conjunct2, THEN conjunct2, THEN conjunct2, THEN conjunct2, THEN conjunct2,
      THEN spec, THEN spec, of 1 "[]", THEN mp, OF missing, THEN conjunct1]
  from rendered files have r: "render_calls (fst (snd (main ?rt ?ui Map.empty)))
      = [(page_path 2, 0, 15)]"
    by simp
  from tested reach have t: "isfile_calls (fst (snd (main ?rt ?ui Map.empty)))
      = [page_path 1, page_path 2, page_path 1, page_path 2]"
    by simp
  from read reach files have x: "extract_calls (fst (snd (main ?rt ?ui Map.empty)))
      = [(page_path 2, 0)]"
    by simp
  from ends files have n: "fst (main ?rt ?ui Map.empty) = None"
    by simp
  from absent have skipped: "show_page ?rt 15 1
       = [Isfile (page_path 1), Notice (St_error (Pdf_file_missing (page_filename 1) data_dir))]"
    by simp
  have trace: "fst (snd (main ?rt ?ui Map.empty))
       = [Selectbox_main [part_one_prefix], Header part_one_prefix,
          Isfile (page_path 1),
          Notice (St_error (Pdf_file_missing (page_filename 1) data_dir)),
          Isfile (page_path 2), Render (page_path 2) 0 15, Show_image [137, 80, 78, 71] 2,
          Divider,
          Expander 1, Isfile (page_path 1),
          Notice (St_error (Pdf_file_missing (page_filename 1) data_dir)),
          Expander 2, Isfile (page_path 2), Extract (page_path 2) 0,
          Text_area (ustr ''hello''),
          Download_pdf [37, 80, 68, 70] (page_filename 2),
          Notice (St_error (Text_download_error UnboundLocalError))]"
    by (simp add: example_trace)
  from example_select example_paths(1) missing present r t x n skipped trace show ?thesis
    by (intro conjI)
qed








lemma main_sub_options:
  "sub_options_of (fst (snd (main rt ui session_state)))
     = sub_options_of (snd (select_section rt ui))"
proof (cases "select_section rt ui")
  case (Pair r log)
  show ?thesis
  proof (cases "\<exists>p s h. r = Inr (Pages p s h)")
    case True
    then obtain p s h where "r = Inr (Pages p s h)" by blast
    with Pair show ?thesis
      using pages_info_calls [of rt "show_text ui" s "[]" p]
      by (simp add: main_of_pages sub_options_of_append show_pages_calls
          split: option.splits)
  next
    case False
    then have "fst (snd (main rt ui session_state)) = log"
      using main_calls_of_other [OF Pair] by blast
    with Pair show ?thesis by simp
  qed
qed

lemma select_section_sub_options:
  assumes "parse_data_detail rt data_detail_path = (sections, shown)"
    and "sections \<noteq> []"
    and "selectbox (map s_name (filter is_main_section sections)) (pick_main ui)
           = Some selected_main_section"
    and "find (\<lambda>s. s_name s = selected_main_section) sections = Some details"
  shows "sub_options_of (snd (select_section rt ui))
     = (if py_startswith selected_main_section part_two_prefix
        then Some (map s_name (sub_sections_of sections details)) else None)"
  using assms
  by (simp add: select_section_def Let_def sub_options_of_append calls_of_notices
      split: option.splits)

lemma sub_sections_of_iff:
  "section \<in> set (sub_sections_of sections details) \<longleftrightarrow>
     section \<in> set sections \<and> s_start details \<le> s_start section
     \<and> s_start section \<le> s_end details"
  by (auto simp: sub_sections_of_def is_sub_section_def)

lemma example_sections:
  "parse_data_detail
     (example_runtime [ustr ''1#9#'' @ part_two_prefix, ustr ''2#3#x'', ustr ''20#30#y''] [] [])
     data_detail_path
   = ([\<lparr>s_start = 1, s_end = 9, s_name = part_two_prefix\<rparr>,
       \<lparr>s_start = 2, s_end = 3, s_name = ustr ''x''\<rparr>,
       \<lparr>s_start = 20, s_end = 30, s_name = ustr ''y''\<rparr>], [])"
  "parse_data_detail
     (example_runtime [ustr ''1#3#'' @ part_one_prefix, ustr ''2#3#x''] [] []) data_detail_path
   = ([\<lparr>s_start = 1, s_end = 3, s_name = part_one_prefix\<rparr>,
       \<lparr>s_start = 2, s_end = 3, s_name = ustr ''x''\<rparr>], [])"
  by (simp_all add: manifest_eval part_one_prefix_def part_two_prefix_def)

text \<open>
  C4 (amended). When the name of the selected main section begins with the prefix
  of part two (the test of line 138), the sub-section select box offers the names
  of exactly the sections \<open>s\<close> of the manifest with
  \<open>m['start'] \<le> s['start'] \<le> m['end']\<close>, where \<open>m\<close> is the selected main section; the
  \<open>end\<close> of \<open>s\<close> plays no role in the test. When the name does not begin with that
  prefix, the run offers no sub-section at all.
\<close>

theorem sub_sections_offered:
  assumes "parse_data_detail rt data_detail_path = (sections, shown)"
    and "sections \<noteq> []"
    and "selectbox (map s_name (filter is_main_section sections)) (pick_main ui)
           = Some selected_main_section"
  shows "\<exists>details. find (\<lambda>s. s_name s = selected_main_section) sections = Some details
     \<and> (py_startswith selected_main_section part_two_prefix \<longrightarrow>
          sub_options_of (fst (snd (main rt ui session_state)))
            = Some (map s_name (sub_sections_of sections details)))
     \<and> (\<not> py_startswith selected_main_section part_two_prefix \<longrightarrow>
          sub_options_of (fst (snd (main rt ui session_state))) = None)
     \<and> (\<forall>section. section \<in> set (sub_sections_of sections details) \<longleftrightarrow>
          section \<in> set sections \<and> s_start details \<le> s_start section
          \<and> s_start section \<le> s_end details)
     \<and> (\<forall>section e. is_sub_section details (section\<lparr>s_end := e\<rparr>)
          \<longleftrightarrow> is_sub_section details section)"
proof -
  from assms(3) have "selected_main_section \<in> s_name ` set sections"
    using selectbox_in [of "map s_name (filter is_main_section sections)" "pick_main ui"
        selected_main_section]
    by auto
  then obtain details where
    found: "find (\<lambda>s. s_name s = selected_main_section) sections = Some details"
    using find_name_in by blast
  have offered: "sub_options_of (fst (snd (main rt ui session_state)))
     = (if py_startswith selected_main_section part_two_prefix
        then Some (map s_name (sub_sections_of sections details)) else None)"
    using select_section_sub_options [OF assms found] by (simp add: main_sub_options)
  have own_end: "\<forall>section e. is_sub_section details (section\<lparr>s_end := e\<rparr>)
          \<longleftrightarrow> is_sub_section details section"
    by (simp add: is_sub_section_def)
  from found offered own_end show ?thesis
    by (simp add: sub_sections_of_iff)
qed

theorem sub_sections_offered_witness:
  "selectbox
     (map s_name (filter is_main_section
        [\<lparr>s_start = 1, s_end = 9, s_name = part_two_prefix\<rparr>,
         \<lparr>s_start = 2, s_end = 3, s_name = ustr ''x''\<rparr>,
         \<lparr>s_start = 20, s_end = 30, s_name = ustr ''y''\<rparr>])) 0
     = Some part_two_prefix
   \<and> py_startswith part_two_prefix part_two_prefix
   \<and> sub_options_of (fst (snd (main
        (example_runtime [ustr ''1#9#'' @ part_two_prefix, ustr ''2#3#x'', ustr ''20#30#y''] [] [])
        \<lparr>pick_main = 0, pick_sub = 1, show_text = True, zoom_factor = 15\<rparr> Map.empty)))
       = Some [part_two_prefix, ustr ''x'']
   \<and> selectbox
        (map s_name (filter is_main_section
           [\<lparr>s_start = 1, s_end = 3, s_name = part_one_prefix\<rparr>,
            \<lparr>s_start = 2, s_end = 3, s_name = ustr ''x''\<rparr>])) 0
       = Some part_one_prefix
   \<and> \<not> py_startswith part_one_prefix part_two_prefix
   \<and> sub_options_of (fst (snd (main
        (example_runtime [ustr ''1#3#'' @ part_one_prefix, ustr ''2#3#x''] [] [])
        \<lparr>pick_main = 0, pick_sub = 0, show_text = True, zoom_factor = 15\<rparr> Map.empty)))
       = None"
proof -
  let ?rt = "example_runtime
      [ustr ''1#9#'' @ part_two_prefix, ustr ''2#3#x'', ustr ''20#30#y''] [] []"
  let ?ui = "\<lparr>pick_main = 0, pick_sub = 1, show_text = True, zoom_factor = 15::nat\<rparr>"
  let ?sections = "[\<lparr>s_start = 1, s_end = 9, s_name = part_two_prefix\<rparr>,
         \<lparr>s_start = 2, s_end = 3, s_name = ustr ''x''\<rparr>,
         \<lparr>s_start = 20, s_end = 30, s_name = ustr ''y''\<rparr>]"
  have picked: "selectbox (map s_name (filter is_main_section ?sections)) (pick_main ?ui)
      = Some part_two_prefix"
    by (simp add: main_eval ustr_def)
  have starts: "py_startswith part_two_prefix part_two_prefix"
    by (simp add: py_startswith_def)
  have found: "find (\<lambda>s. s_name s = part_two_prefix) ?sections
      = Some \<lparr>s_start = 1, s_end = 9, s_name = part_two_prefix\<rparr>"
    by simp
  have subs: "map s_name (sub_sections_of ?sections
        \<lparr>s_start = 1, s_end = 9, s_name = part_two_prefix\<rparr>) = [part_two_prefix, ustr ''x'']"
    by (simp add: sub_sections_of_def is_sub_section_def)
  from sub_sections_offered [OF example_sections(1) _ picked, of Map.empty] found starts subs
  have two: "sub_options_of (fst (snd (main ?rt ?ui Map.empty)))
      = Some [part_two_prefix, ustr ''x'']"
    by auto
  let ?rt1 = "example_runtime [ustr ''1#3#'' @ part_one_prefix, ustr ''2#3#x''] [] []"
  let ?ui1 = "\<lparr>pick_main = 0, pick_sub = 0, show_text = True, zoom_factor = 15::nat\<rparr>"
  let ?sections1 = "[\<lparr>s_start = 1, s_end = 3, s_name = part_one_prefix\<rparr>,
         \<lparr>s_start = 2, s_end = 3, s_name = ustr ''x''\<rparr>]"
  have picked1: "selectbox (map s_name (filter is_main_section ?sections1)) (pick_main ?ui1)
      = Some part_one_prefix"
    by (simp add: main_eval ustr_def)
  have other: "\<not> py_startswith part_one_prefix part_two_prefix"
    by (simp add: py_startswith_def part_one_prefix_def part_two_prefix_def)
  from sub_sections_offered [OF example_sections(2) _ picked1, of Map.empty] other
  have one: "sub_options_of (fst (snd (main ?rt1 ?ui1 Map.empty))) = None"
    by auto
  from picked1 have picked1': "selectbox (map s_name (filter is_main_section ?sections1)) 0
      = Some part_one_prefix"
    by simp
  from picked have picked': "selectbox (map s_name (filter is_main_section ?sections)) 0
      = Some part_two_prefix"
    by simp
  from picked' starts two picked1' other one show ?thesis
    by (intro conjI)
qed

text \<open>
  As stated, for any selected main section, C4 fails: with a main section of part
  one spanning pages 1 to 3 and a section starting at page 2, the section lies in
  the range and the run shows no sub-section select box.
\<close>

theorem sub_sections_offered_counterexample:
  "fst (parse_data_detail
          (example_runtime [ustr ''1#3#'' @ part_one_prefix, ustr ''2#3#x''] [] [])
          data_detail_path)
     = [\<lparr>s_start = 1, s_end = 3, s_name = part_one_prefix\<rparr>,
        \<lparr>s_start = 2, s_end = 3, s_name = ustr ''x''\<rparr>]
   \<and> selectbox
        (map s_name (filter is_main_section
           [\<lparr>s_start = 1, s_end = 3, s_name = part_one_prefix\<rparr>,
            \<lparr>s_start = 2, s_end = 3, s_name = ustr ''x''\<rparr>])) 0
       = Some part_one_prefix
   \<and> find (\<lambda>s. s_name s = part_one_prefix)
        [\<lparr>s_start = 1, s_end = 3, s_name = part_one_prefix\<rparr>,
         \<lparr>s_start = 2, s_end = 3, s_name = ustr ''x''\<rparr>]
       = Some \<lparr>s_start = 1, s_end = 3, s_name = part_one_prefix\<rparr>
   \<and> s_start \<lparr>s_start = 1, s_end = 3, s_name = part_one_prefix\<rparr>
       \<le> s_start \<lparr>s_start = 2, s_end = 3, s_name = ustr ''x''\<rparr>
   \<and> s_start \<lparr>s_start = 2, s_end = 3, s_name = ustr ''x''\<rparr>
       \<le> s_end \<lparr>s_start = 1, s_end = 3, s_name = part_one_prefix\<rparr>
   \<and> sub_options_of (fst (snd (main
        (example_runtime [ustr ''1#3#'' @ part_one_prefix, ustr ''2#3#x''] [] [])
        \<lparr>pick_main = 0, pick_sub = 0, show_text = True, zoom_factor = 15\<rparr> Map.empty)))
       = None"
proof -
  let ?rt = "example_runtime [ustr ''1#3#'' @ part_one_prefix, ustr ''2#3#x''] [] []"
  let ?ui = "\<lparr>pick_main = 0, pick_sub = 0, show_text = True, zoom_factor = 15::nat\<rparr>"
  let ?sections = "[\<lparr>s_start = 1, s_end = 3, s_name = part_one_prefix\<rparr>,
         \<lparr>s_start = 2, s_end = 3, s_name = ustr ''x''\<rparr>]"
  have picked: "selectbox (map s_name (filter is_main_section ?sections)) (pick_main ?ui)
      = Some part_one_prefix"
    by (simp add: main_eval ustr_def)
  have found: "find (\<lambda>s. s_name s = part_one_prefix) ?sections
      = Some \<lparr>s_start = 1, s_end = 3, s_name = part_one_prefix\<rparr>"
    by simp
  have other: "\<not> py_startswith part_one_prefix part_two_prefix"
    by (simp add: py_startswith_def part_one_prefix_def part_two_prefix_def)
  have "sub_options_of (snd (select_section ?rt ?ui)) = None"
    using select_section_sub_options [OF example_sections(2) _ picked found] other by simp
  then have none: "sub_options_of (fst (snd (main ?rt ?ui Map.empty))) = None"
    by (simp add: main_sub_options)
  from picked have picked': "selectbox (map s_name (filter is_main_section ?sections)) 0
      = Some part_one_prefix"
    by simp
  from example_sections(2) picked' found none show ?thesis by simp
qed


end
